theory Spec2Isabelle
  imports Complex_Main
begin

chapter \<open>The indexing and search pipeline of rwa-chatbot-api\<close>

text \<open>
  A shallow embedding of the ingestion, normalisation, quality-gate, store, embedding and
  search code. Python strings are \<^typ>\<open>string\<close>, with a character standing for one
  code point below 256; a value that may be \<^verbatim>\<open>None\<close> is an \<^typ>\<open>'a option\<close>;
  a raised exception is the \<open>Inl\<close> branch of a sum.
\<close>

section \<open>Strings\<close>

text \<open>
  \<^verbatim>\<open>str.isspace\<close>, which \<^verbatim>\<open>str.strip()\<close> and the pattern \<^verbatim>\<open>\s\<close> of
  \<^verbatim>\<open>re\<close> both use: below 256 the white-space code points are 9 to 13, 28 to 32,
  133 and 160.
\<close>

definition is_space :: "char \<Rightarrow> bool" where
  "is_space c = (let n = (of_char c :: nat) in
     (9 \<le> n \<and> n \<le> 13) \<or> (28 \<le> n \<and> n \<le> 32) \<or> n = 133 \<or> n = 160)"

text \<open>
  The upper-case letters among the code points below 256: A to Z, and 192 to 222 without
  the sign 215. These are the code points below 256 that \<^verbatim>\<open>str.lower()\<close> changes, each
  to the code point 32 above it.
\<close>

definition is_upper_below_256 :: "char \<Rightarrow> bool" where
  "is_upper_below_256 c = (let n = (of_char c :: nat) in
     (65 \<le> n \<and> n \<le> 90) \<or> (192 \<le> n \<and> n \<le> 222 \<and> n \<noteq> 215))"

definition lower_char :: "char \<Rightarrow> char" where
  "lower_char c = (if is_upper_below_256 c then char_of ((of_char c :: nat) + 32) else c)"

text \<open>
  \<^verbatim>\<open>s.lower()\<close> of a string of code points below 256. A string with a code point from
  256 on is outside the model; of those code points \<^verbatim>\<open>str.lower()\<close> changes some and
  leaves others, upper-case letters such as U+2102 among them, as they are, so that what is
  said below of \<^verbatim>\<open>lower\<close> is that its result is a fixed point of it, and, of upper-case
  letters, only that none below 256 is left.
\<close>

definition lower :: "string \<Rightarrow> string" where
  "lower s = map lower_char s"

text \<open>\<^verbatim>\<open>s.strip()\<close>\<close>

definition strip :: "string \<Rightarrow> string" where
  "strip s = rev (dropWhile is_space (rev (dropWhile is_space s)))"

text \<open>\<^verbatim>\<open>re.sub(r"\s+", " ", s)\<close>: every maximal run of white space becomes one blank.\<close>

function re_sub_ws :: "string \<Rightarrow> string" where
  "re_sub_ws [] = []"
| "re_sub_ws (c # cs) =
     (if is_space c then CHR '' '' # re_sub_ws (dropWhile is_space cs)
      else c # re_sub_ws cs)"
  by pat_completeness auto
termination
  by (relation "measure length") (auto simp: length_dropWhile_le less_Suc_eq_le)

text \<open>\<^verbatim>\<open>sep.join(parts)\<close>\<close>

fun join :: "string \<Rightarrow> string list \<Rightarrow> string" where
  "join sep [] = []"
| "join sep [p] = p"
| "join sep (p # q # ps) = p @ sep @ join sep (q # ps)"

text \<open>\<^verbatim>\<open>x or ""\<close> and \<^verbatim>\<open>x or []\<close>\<close>

definition or_empty :: "'a list option \<Rightarrow> 'a list" where
  "or_empty x = (case x of None \<Rightarrow> [] | Some s \<Rightarrow> s)"

section \<open>Record Normalizer: the text blob\<close>

text \<open>
  The last three lines of \<^verbatim>\<open>to_text_blob\<close> and of \<^verbatim>\<open>_create_text_blob\<close>:
  \<^verbatim>\<open>
    text = " \n ".join([p.strip() for p in parts if p])
    text = re.sub(r"\s+", " ", text)
    return text.lower()
  \<close>
  The filter \<^verbatim>\<open>if p\<close> looks at the part before it is stripped.
\<close>

definition blob_of_parts :: "string list \<Rightarrow> string" where
  "blob_of_parts parts =
     lower (re_sub_ws (join '' \<newline> '' (map strip (filter (\<lambda>p. p \<noteq> []) parts))))"

text \<open>\<^verbatim>\<open>to_text_blob\<close> of \<^verbatim>\<open>src/tableau/normalize.py\<close>\<close>

definition to_text_blob ::
  "string option \<Rightarrow> string option \<Rightarrow> string list option \<Rightarrow> string list option \<Rightarrow>
   string option \<Rightarrow> string option \<Rightarrow> string option \<Rightarrow> string" where
  "to_text_blob title desc tags fields project owner additional_text =
     blob_of_parts
       [or_empty title, or_empty desc, join '' '' (or_empty tags), join '' '' (or_empty fields),
        or_empty project, or_empty owner, or_empty additional_text]"

text \<open>\<^verbatim>\<open>EnhancedTableauClient._create_text_blob\<close>: the same without a context sentence.\<close>

definition create_text_blob ::
  "string option \<Rightarrow> string option \<Rightarrow> string list option \<Rightarrow> string list option \<Rightarrow>
   string option \<Rightarrow> string option \<Rightarrow> string" where
  "create_text_blob title description tags fields project owner =
     blob_of_parts
       [or_empty title, or_empty description, join '' '' (or_empty tags),
        join '' '' (or_empty fields), or_empty project, or_empty owner]"

text \<open>
  The formula of the specification, word for word: the lower-case, white-space-collapsed
  join of the non-empty parts, nothing stripped.
\<close>

definition spec_text_blob :: "string list \<Rightarrow> string" where
  "spec_text_blob parts = lower (re_sub_ws (join '' '' (filter (\<lambda>p. p \<noteq> []) parts)))"

text \<open>No two white-space characters in a row.\<close>

fun no_ws_run :: "string \<Rightarrow> bool" where
  "no_ws_run (a # b # cs) = (\<not> (is_space a \<and> is_space b) \<and> no_ws_run (b # cs))"
| "no_ws_run cs = True"

section \<open>Payload dictionaries\<close>

text \<open>
  What a payload dictionary holds under one key: nothing, \<^verbatim>\<open>None\<close> (a JSON
  \<^verbatim>\<open>null\<close>), or a value.
\<close>

datatype 'a entry = Absent | Null | Val 'a

text \<open>\<^verbatim>\<open>d.get(k, default)\<close> and \<^verbatim>\<open>d.get(k)\<close>\<close>

definition get_or :: "'a entry \<Rightarrow> 'a \<Rightarrow> 'a option" where
  "get_or e dflt = (case e of Absent \<Rightarrow> Some dflt | Null \<Rightarrow> None | Val v \<Rightarrow> Some v)"

definition get :: "'a entry \<Rightarrow> 'a option" where
  "get e = (case e of Absent \<Rightarrow> None | Null \<Rightarrow> None | Val v \<Rightarrow> Some v)"

text \<open>Python truth of a string, list or dictionary that may be \<^verbatim>\<open>None\<close>.\<close>

definition truthy :: "'a list option \<Rightarrow> bool" where
  "truthy x = (case x of None \<Rightarrow> False | Some v \<Rightarrow> v \<noteq> [])"

text \<open>
  A nested dictionary with string keys whose values are strings or \<^verbatim>\<open>None\<close>
  (an owner, a project, a tag, the parent workbook stamped on a view).
\<close>

type_synonym pydict = "(string \<times> string option) list"

definition dict_get :: "pydict \<Rightarrow> string \<Rightarrow> string option" where
  "dict_get d k = (case map_of d k of None \<Rightarrow> None | Some v \<Rightarrow> v)"

definition dict_get_or :: "pydict \<Rightarrow> string \<Rightarrow> string \<Rightarrow> string option" where
  "dict_get_or d k dflt = (case map_of d k of None \<Rightarrow> Some dflt | Some v \<Rightarrow> v)"

text \<open>\<^verbatim>\<open>f"{x}"\<close> of a string that may be \<^verbatim>\<open>None\<close>\<close>

definition py_str :: "string option \<Rightarrow> string" where
  "py_str x = (case x of None \<Rightarrow> ''None'' | Some s \<Rightarrow> s)"

datatype error =
    ValueError string
  | TypeError
  | RequestException
  | ApiError
  | SQLAlchemyError

section \<open>The canonical record\<close>

text \<open>
  The record dictionary that the normalizer builds and that the quality gate and the store
  read with \<^verbatim>\<open>record.get(...)\<close>: every value is of the type the data model gives it,
  or \<^verbatim>\<open>None\<close> (which also stands for a missing key, as \<^verbatim>\<open>get\<close> cannot tell them
  apart).
\<close>

record tableau_record =
  site_id :: "string option"
  object_type :: "string option"
  object_id :: "string option"
  title :: "string option"
  description :: "string option"
  tags :: "string list option"
  fields' :: "string list option"
  project_name :: "string option"
  owner :: "string option"
  url :: "string option"
  text_blob :: "string option"
  deep_link_url :: "string option"

section \<open>Record Normalizer: the GraphQL path of normalize.py\<close>

record gql_workbook =
  gql_id :: "string entry"
  gql_name :: "string entry"
  gql_description :: "string entry"
  gql_tags :: "pydict list entry"
  gql_projectName :: "string entry"
  gql_owner :: "pydict entry"
  gql_contentUrl :: "string entry"

text \<open>
  \<^verbatim>\<open>build_workbook_record\<close>. A tag without a name makes \<^verbatim>\<open>" ".join(tags)\<close> in
  \<^verbatim>\<open>to_text_blob\<close> raise, and with it the whole function.
\<close>

definition build_workbook_record :: "string \<Rightarrow> gql_workbook \<Rightarrow> error + tableau_record" where
  "build_workbook_record sid workbook =
     (let ttl = get_or (gql_name workbook) [];
          desc = or_empty (get (gql_description workbook));
          tag_names = map (\<lambda>t. dict_get_or t ''name'' []) (or_empty (get (gql_tags workbook)));
          project = get_or (gql_projectName workbook) [];
          ownr = dict_get_or (or_empty (get (gql_owner workbook))) ''name'' [];
          content_url = get_or (gql_contentUrl workbook) [];
          additional_text = ''workbook '' @ py_str ttl
      in if None \<in> set tag_names then Inl TypeError
         else Inr \<lparr> site_id = Some sid,
                    object_type = Some ''workbook'',
                    object_id = get_or (gql_id workbook) [],
                    title = ttl,
                    description = Some desc,
                    tags = Some (map the tag_names),
                    fields' = Some [],
                    project_name = project,
                    owner = ownr,
                    url = content_url,
                    text_blob = Some (to_text_blob ttl (Some desc) (Some (map the tag_names))
                                        (Some []) project ownr (Some additional_text)),
                    deep_link_url = None \<rparr>)"

section \<open>Record Normalizer: the REST path of enhanced_client.py\<close>

text \<open>
  The value under \<^verbatim>\<open>"tags"\<close>: a dictionary, of which only the \<^verbatim>\<open>"tag"\<close> entry is
  read, or something that is not a dictionary.
\<close>

datatype tags_value = TagsDict "string list entry" | TagsOther

record rest_object =
  raw_id :: "string entry"
  raw_name :: "string entry"
  raw_description :: "string entry"
  raw_tags :: "tags_value entry"
  raw_project :: "pydict entry"
  raw_owner :: "pydict entry"
  raw_workbook :: "pydict entry"
  raw_contentUrl :: "string entry"

text \<open>
  \<^verbatim>\<open>o.get("tags", {}).get("tag", []) if isinstance(o.get("tags", {}), dict) else []\<close>
\<close>

definition rest_tags :: "rest_object \<Rightarrow> string list option" where
  "rest_tags obj =
     (case raw_tags obj of
        Absent \<Rightarrow> Some []
      | Null \<Rightarrow> Some []
      | Val TagsOther \<Rightarrow> Some []
      | Val (TagsDict e) \<Rightarrow> get_or e [])"

text \<open>\<^verbatim>\<open>o.get(k, {}).get(name) if o.get(k) else None\<close>\<close>

definition nested_name :: "pydict entry \<Rightarrow> string \<Rightarrow> string option" where
  "nested_name e name = (if truthy (get e) then dict_get (or_empty (get_or e [])) name else None)"

text \<open>
  The dictionary built for one object in \<^verbatim>\<open>prepare_objects_for_indexing\<close>; the
  three loops differ in the type name and in where the project name comes from. The key
  \<^verbatim>\<open>search_priority\<close>, which nothing downstream reads, is left out. With values of
  these types no expression of the loop body raises, so the \<^verbatim>\<open>except\<close> branch that
  skips an object is never taken.
\<close>

definition prepare_object :: "string \<Rightarrow> string \<Rightarrow> string option \<Rightarrow> rest_object \<Rightarrow> tableau_record" where
  "prepare_object sid otype project obj =
     \<lparr> site_id = Some sid,
       object_type = Some otype,
       object_id = get_or (raw_id obj) [],
       title = get_or (raw_name obj) [],
       description = get_or (raw_description obj) [],
       tags = rest_tags obj,
       fields' = Some [],
       project_name = project,
       owner = nested_name (raw_owner obj) ''name'',
       url = get_or (raw_contentUrl obj) [],
       text_blob = Some (create_text_blob (get_or (raw_name obj) [])
                           (get_or (raw_description obj) []) (rest_tags obj) (Some [])
                           project (nested_name (raw_owner obj) ''name'')),
       deep_link_url = None \<rparr>"

definition prepare_workbook :: "string \<Rightarrow> rest_object \<Rightarrow> tableau_record" where
  "prepare_workbook sid obj =
     prepare_object sid ''workbook'' (nested_name (raw_project obj) ''name'') obj"

definition prepare_datasource :: "string \<Rightarrow> rest_object \<Rightarrow> tableau_record" where
  "prepare_datasource sid obj =
     prepare_object sid ''datasource'' (nested_name (raw_project obj) ''name'') obj"

definition prepare_view :: "string \<Rightarrow> rest_object \<Rightarrow> tableau_record" where
  "prepare_view sid obj =
     prepare_object sid ''view'' (nested_name (raw_workbook obj) ''projectName'') obj"

record metadata =
  workbooks :: "rest_object list"
  datasources :: "rest_object list"
  views :: "rest_object list"

text \<open>\<^verbatim>\<open>prepare_objects_for_indexing\<close>, given what \<^verbatim>\<open>get_site_id()\<close> returns.\<close>

definition prepare_objects_for_indexing ::
  "string option \<Rightarrow> metadata \<Rightarrow> error + tableau_record list" where
  "prepare_objects_for_indexing sid md =
     (if \<not> truthy sid then Inl (ValueError ''No site ID available'')
      else Inr (map (prepare_workbook (the sid)) (workbooks md)
              @ map (prepare_datasource (the sid)) (datasources md)
              @ map (prepare_view (the sid)) (views md)))"

section \<open>Quality Gate\<close>

text \<open>
  The messages the checker collects are f-strings; the model keeps the data each one is
  built from. \<open>MissingSiteId i\<close> is \<^verbatim>\<open>f"Record {i}: Missing site_id"\<close>, and so on.
\<close>

datatype issue =
    MissingSiteId nat
  | IncorrectSiteId nat string string
  | MissingRequiredField nat string

datatype warning =
    HighWithoutDescriptions nat nat
  | ManyShortDescriptions nat nat
  | MalformedUrls nat
  | ManyWithoutDeepLinks nat nat
  | EmptyTextBlobs nat
  | ManyShortTextBlobs nat nat

text \<open>The attributes of a \<^verbatim>\<open>QualityChecker\<close>.\<close>

record quality_checker =
  checker_site_id :: string
  checker_site_name :: string
  quality_issues :: "issue list"
  warnings :: "warning list"

text \<open>\<^verbatim>\<open>QualityChecker(site_id, site_name)\<close>\<close>

definition QualityChecker :: "string \<Rightarrow> string \<Rightarrow> quality_checker" where
  "QualityChecker sid sname =
     \<lparr> checker_site_id = sid, checker_site_name = sname, quality_issues = [], warnings = [] \<rparr>"

text \<open>The body of the loop of \<^verbatim>\<open>check_site_isolation\<close> for record number \<open>i\<close>.\<close>

definition site_isolation_issue :: "string \<Rightarrow> nat \<times> tableau_record \<Rightarrow> issue list" where
  "site_isolation_issue sid ir =
     (case ir of (i, r) \<Rightarrow>
        if \<not> truthy (site_id r) then [MissingSiteId i]
        else if site_id r \<noteq> Some sid then [IncorrectSiteId i (the (site_id r)) sid]
        else [])"

definition check_site_isolation ::
  "tableau_record list \<Rightarrow> quality_checker \<Rightarrow> bool \<times> quality_checker" where
  "check_site_isolation records qc =
     (let issues = concat (map (site_isolation_issue (checker_site_id qc)) (enumerate 0 records))
      in if issues \<noteq> [] then (False, qc\<lparr>quality_issues := quality_issues qc @ issues\<rparr>)
         else (True, qc))"

text \<open>\<^verbatim>\<open>required_fields = ["object_id", "title", "object_type", "text_blob"]\<close>\<close>

definition required_fields :: "(string \<times> (tableau_record \<Rightarrow> string option)) list" where
  "required_fields =
     [(''object_id'', object_id), (''title'', title), (''object_type'', object_type),
      (''text_blob'', text_blob)]"

definition required_field_issues :: "nat \<times> tableau_record \<Rightarrow> issue list" where
  "required_field_issues ir =
     (case ir of (i, r) \<Rightarrow>
        concat (map (\<lambda>(name, field). if \<not> truthy (field r) then [MissingRequiredField i name] else [])
                  required_fields))"

definition check_required_fields ::
  "tableau_record list \<Rightarrow> quality_checker \<Rightarrow> bool \<times> quality_checker" where
  "check_required_fields records qc =
     (let issues = concat (map required_field_issues (enumerate 0 records))
      in if issues \<noteq> [] then (False, qc\<lparr>quality_issues := quality_issues qc @ issues\<rparr>)
         else (True, qc))"

text \<open>
  The advisory checks compare a count with a fraction of the number of records, in
  floating point: \<^verbatim>\<open>n > total * 0.5\<close>, \<^verbatim>\<open>* 0.3\<close>, \<^verbatim>\<open>* 0.2\<close>, \<^verbatim>\<open>* 0.1\<close>.
  The model compares the integers (\<open>10 * n > 3 * total\<close> for \<open>0.3\<close>), which gives the
  same answer for every number of records a list can have.
\<close>

record description_stats =
  d_total_records :: nat
  with_descriptions :: nat
  without_descriptions :: nat
  empty_descriptions :: nat
  short_descriptions :: nat
  long_descriptions :: nat

definition count :: "('a \<Rightarrow> bool) \<Rightarrow> 'a list \<Rightarrow> nat" where
  "count P xs = length (filter P xs)"

definition has_description :: "tableau_record \<Rightarrow> bool" where
  "has_description r = (truthy (description r) \<and> strip (the (description r)) \<noteq> [])"

definition check_description_quality ::
  "tableau_record list \<Rightarrow> quality_checker \<Rightarrow> description_stats \<times> quality_checker" where
  "check_description_quality records qc =
     (let stats = \<lparr>
            d_total_records = length records,
            with_descriptions = count has_description records,
            without_descriptions = count (\<lambda>r. \<not> truthy (description r)) records,
            empty_descriptions =
              count (\<lambda>r. truthy (description r) \<and> strip (the (description r)) = []) records,
            short_descriptions =
              count (\<lambda>r. has_description r \<and> length (the (description r)) < 10) records,
            long_descriptions =
              count (\<lambda>r. has_description r \<and> \<not> length (the (description r)) < 10
                         \<and> length (the (description r)) > 500) records \<rparr>;
          w1 = (if 2 * without_descriptions stats > d_total_records stats
                then [HighWithoutDescriptions (without_descriptions stats) (d_total_records stats)]
                else []);
          w2 = (if 10 * short_descriptions stats > 3 * d_total_records stats
                then [ManyShortDescriptions (short_descriptions stats) (d_total_records stats)]
                else [])
      in (stats, qc\<lparr>warnings := warnings qc @ w1 @ w2\<rparr>))"

record url_stats =
  u_total_records :: nat
  with_urls :: nat
  without_urls :: nat
  with_deep_links :: nat
  without_deep_links :: nat
  malformed_urls :: nat

text \<open>\<^verbatim>\<open>s.startswith(p)\<close>\<close>

definition startswith :: "string \<Rightarrow> string \<Rightarrow> bool" where
  "startswith s p = (take (length p) s = p)"

definition malformed_url :: "tableau_record \<Rightarrow> bool" where
  "malformed_url r =
     (truthy (url r) \<and>
      \<not> (startswith (the (url r)) ''views/'' \<or> startswith (the (url r)) ''workbooks/''
         \<or> startswith (the (url r)) ''datasources/''))"

definition check_url_quality ::
  "tableau_record list \<Rightarrow> quality_checker \<Rightarrow> url_stats \<times> quality_checker" where
  "check_url_quality records qc =
     (let stats = \<lparr>
            u_total_records = length records,
            with_urls = count (\<lambda>r. truthy (url r)) records,
            without_urls = count (\<lambda>r. \<not> truthy (url r)) records,
            with_deep_links = count (\<lambda>r. truthy (deep_link_url r)) records,
            without_deep_links = count (\<lambda>r. \<not> truthy (deep_link_url r)) records,
            malformed_urls = count malformed_url records \<rparr>;
          w1 = (if malformed_urls stats > 0 then [MalformedUrls (malformed_urls stats)] else []);
          w2 = (if 10 * without_deep_links stats > u_total_records stats
                then [ManyWithoutDeepLinks (without_deep_links stats) (u_total_records stats)]
                else [])
      in (stats, qc\<lparr>warnings := warnings qc @ w1 @ w2\<rparr>))"

text \<open>
  \<^verbatim>\<open>average_length\<close> is \<^verbatim>\<open>total_length / total_records\<close>, a float, and \<open>0\<close> for no
  records; the model keeps the numerator, the denominator being \<open>t_total_records\<close>.
\<close>

record text_blob_stats =
  t_total_records :: nat
  empty_text_blobs :: nat
  short_text_blobs :: nat
  long_text_blobs :: nat
  total_length :: nat

definition check_text_blob_quality ::
  "tableau_record list \<Rightarrow> quality_checker \<Rightarrow> text_blob_stats \<times> quality_checker" where
  "check_text_blob_quality records qc =
     (let stats = \<lparr>
            t_total_records = length records,
            empty_text_blobs = count (\<lambda>r. \<not> truthy (text_blob r)) records,
            short_text_blobs =
              count (\<lambda>r. truthy (text_blob r) \<and> length (the (text_blob r)) < 20) records,
            long_text_blobs =
              count (\<lambda>r. truthy (text_blob r) \<and> length (the (text_blob r)) > 2000) records,
            total_length =
              sum_list (map (\<lambda>r. length (the (text_blob r)))
                          (filter (\<lambda>r. truthy (text_blob r)) records)) \<rparr>;
          w1 = (if empty_text_blobs stats > 0 then [EmptyTextBlobs (empty_text_blobs stats)] else []);
          w2 = (if 5 * short_text_blobs stats > t_total_records stats
                then [ManyShortTextBlobs (short_text_blobs stats) (t_total_records stats)]
                else [])
      in (stats, qc\<lparr>warnings := warnings qc @ w1 @ w2\<rparr>))"

text \<open>The dictionary \<^verbatim>\<open>run_all_checks\<close> returns.\<close>

record quality_results =
  site_isolation :: bool
  required_fields_ok :: bool
  description_quality :: description_stats
  url_quality :: url_stats
  text_blob_quality :: text_blob_stats
  issues :: "issue list"
  result_warnings :: "warning list"
  overall_quality :: bool

text \<open>
  \<^verbatim>\<open>run_all_checks\<close>: the five checks run in this order on the one checker, whose two
  lists the result then shares; \<^verbatim>\<open>all(critical_checks)\<close> is the conjunction of the
  first two results.
\<close>

definition run_all_checks ::
  "tableau_record list \<Rightarrow> quality_checker \<Rightarrow> quality_results \<times> quality_checker" where
  "run_all_checks records qc0 =
     (let (iso, qc1) = check_site_isolation records qc0;
          (req, qc2) = check_required_fields records qc1;
          (ds, qc3) = check_description_quality records qc2;
          (us, qc4) = check_url_quality records qc3;
          (ts, qc5) = check_text_blob_quality records qc4;
          critical_checks = [iso, req]
      in (\<lparr> site_isolation = iso,
            required_fields_ok = req,
            description_quality = ds,
            url_quality = us,
            text_blob_quality = ts,
            issues = quality_issues qc5,
            result_warnings = warnings qc5,
            overall_quality = list_all (\<lambda>b. b) critical_checks \<rparr>, qc5))"

text \<open>\<^verbatim>\<open>get_indexing_recommendations\<close>, with the same reading of the float products.\<close>

definition get_indexing_recommendations :: "quality_results \<Rightarrow> string list" where
  "get_indexing_recommendations qr =
     (if 10 * without_descriptions (description_quality qr) > 3 * d_total_records (description_quality qr)
      then [''Consider asking authors to add descriptions to workbooks and views''] else [])
   @ (if 5 * short_text_blobs (text_blob_quality qr) > t_total_records (text_blob_quality qr)
      then [''Many records have short text blobs - consider improving metadata extraction'']
      else [])
   @ (if malformed_urls (url_quality qr) > 0
      then [''Fix malformed URLs in Tableau metadata''] else [])
   @ (if \<not> overall_quality qr
      then [''Fix critical quality issues before proceeding with indexing''] else [])
   @ (if length (result_warnings qr) > 5
      then [''Address quality warnings to improve search results''] else [])"

text \<open>
  A record has a blocking failure when one of the two blocking checks reports it: a site
  id that is missing or is not the target, or a required field that is missing.
\<close>

definition blocking_failure :: "string \<Rightarrow> tableau_record \<Rightarrow> bool" where
  "blocking_failure sid r =
     (\<not> truthy (site_id r) \<or> site_id r \<noteq> Some sid
      \<or> \<not> truthy (object_id r) \<or> \<not> truthy (title r) \<or> \<not> truthy (object_type r)
      \<or> \<not> truthy (text_blob r))"

section \<open>Example data\<close>

text \<open>A record of site \<open>s1\<close> with every required field, no description and a bare URL.\<close>

definition example_record :: tableau_record where
  "example_record =
     \<lparr> site_id = Some ''s1'', object_type = Some ''workbook'', object_id = Some ''wb-1'',
       title = Some ''Sales'', description = None, tags = Some [], fields' = Some [],
       project_name = Some ''Finance'', owner = None, url = Some ''Sales'',
       text_blob = Some ''sales finance'', deep_link_url = None \<rparr>"

definition example_checker :: quality_checker where
  "example_checker = QualityChecker ''s1'' ''Main''"

text \<open>
  A workbook as the REST listing returns it: no project element, and an owner element that
  carries an id and no name.
\<close>

definition example_rest_workbook :: rest_object where
  "example_rest_workbook =
     \<lparr> raw_id = Val ''wb-1'', raw_name = Val ''Sales'', raw_description = Absent,
       raw_tags = Absent, raw_project = Absent, raw_owner = Val [(''id'', Some ''u-7'')],
       raw_workbook = Absent, raw_contentUrl = Val ''Sales'' \<rparr>"

text \<open>The same workbook on the GraphQL path, project and owner missing.\<close>

definition example_gql_workbook :: gql_workbook where
  "example_gql_workbook =
     \<lparr> gql_id = Val ''wb-1'', gql_name = Val ''Sales'', gql_description = Absent,
       gql_tags = Absent, gql_projectName = Absent, gql_owner = Absent,
       gql_contentUrl = Val ''Sales'' \<rparr>"

section \<open>Store\<close>

text \<open>
  A row of \<^verbatim>\<open>chatbot.objects\<close>, with the columns and the \<^verbatim>\<open>NOT NULL\<close> marks of
  \<^verbatim>\<open>TableauObject\<close> in \<^verbatim>\<open>models.py\<close>: a column that cannot be null holds a value, the
  others an option. The embedding is a vector of floats, of which the model only needs to
  know whether it is there, and how far it is from a query: its type is left open.
\<close>

record 'e row =
  row_id :: nat
  row_site_id :: string
  row_object_type :: string
  row_object_id :: string
  row_title :: string
  row_description :: "string option"
  row_tags :: "string list option"
  row_fields :: "string list option"
  row_project_name :: "string option"
  row_owner :: "string option"
  row_url :: "string option"
  row_text_blob :: string
  embedding :: "'e option"
  updated_at :: nat

text \<open>
  The database: whether a connection can be opened, the rows of the table, and the next
  value of the sequence behind \<^verbatim>\<open>id\<close>. Time is a natural number.
\<close>

record 'e store =
  reachable :: bool
  rows :: "'e row list"
  next_id :: nat

definition key_of :: "'e row \<Rightarrow> string \<times> string \<times> string" where
  "key_of r = (row_site_id r, row_object_type r, row_object_id r)"

text \<open>
  The \<^verbatim>\<open>DO UPDATE SET\<close> list of \<^verbatim>\<open>UPSERT_SQL\<close>: eight columns from the proposed row
  and \<^verbatim>\<open>updated_at = now()\<close>. The id and the embedding are not in the list.
\<close>

definition do_update :: "nat \<Rightarrow> tableau_record \<Rightarrow> 'e row \<Rightarrow> 'e row" where
  "do_update now p r =
     r\<lparr> row_title := the (title p),
        row_description := description p,
        row_tags := tags p,
        row_fields := fields' p,
        row_project_name := project_name p,
        row_owner := owner p,
        row_url := url p,
        row_text_blob := the (text_blob p),
        updated_at := now \<rparr>"

text \<open>
  The row \<^verbatim>\<open>INSERT INTO ... VALUES\<close> proposes: the eleven parameters and \<^verbatim>\<open>now()\<close>, a
  fresh id, no embedding.
\<close>

definition inserted_row :: "nat \<Rightarrow> nat \<Rightarrow> tableau_record \<Rightarrow> 'e row" where
  "inserted_row new_id now p =
     \<lparr> row_id = new_id,
       row_site_id = the (site_id p),
       row_object_type = the (object_type p),
       row_object_id = the (object_id p),
       row_title = the (title p),
       row_description = description p,
       row_tags = tags p,
       row_fields = fields' p,
       row_project_name = project_name p,
       row_owner = owner p,
       row_url = url p,
       row_text_blob = the (text_blob p),
       embedding = None,
       updated_at = now \<rparr>"

text \<open>The parameters the table can take: no null in a \<^verbatim>\<open>NOT NULL\<close> column.\<close>

definition storable :: "tableau_record \<Rightarrow> bool" where
  "storable p =
     (site_id p \<noteq> None \<and> object_type p \<noteq> None \<and> object_id p \<noteq> None \<and> title p \<noteq> None
      \<and> text_blob p \<noteq> None)"

definition param_key :: "tableau_record \<Rightarrow> string \<times> string \<times> string" where
  "param_key p = (the (site_id p), the (object_type p), the (object_id p))"

text \<open>
  One execution of \<^verbatim>\<open>UPSERT_SQL\<close> at time \<open>now\<close>: an error for a null in a
  \<^verbatim>\<open>NOT NULL\<close> column; on a conflict with the unique key (site_id, object_type,
  object_id) the update of the row in conflict; the insertion of the proposed row otherwise.
\<close>

definition execute_upsert :: "nat \<Rightarrow> tableau_record \<Rightarrow> 'e store \<Rightarrow> error + 'e store" where
  "execute_upsert now p s =
     (if \<not> storable p then Inl SQLAlchemyError
      else if param_key p \<in> set (map key_of (rows s))
      then Inr (s\<lparr>rows := map (\<lambda>r. if key_of r = param_key p then do_update now p r else r)
                                (rows s)\<rparr>)
      else Inr (s\<lparr>rows := rows s @ [inserted_row (next_id s) now p],
                   next_id := Suc (next_id s)\<rparr>))"

text \<open>\<^verbatim>\<open>record_data\<close> in \<^verbatim>\<open>upsert_records\<close>: eleven keys, tags and fields never null.\<close>

definition record_data :: "tableau_record \<Rightarrow> tableau_record" where
  "record_data r =
     r\<lparr> tags := Some (or_empty (tags r)), fields' := Some (or_empty (fields' r)),
        deep_link_url := None \<rparr>"

text \<open>
  The loop of \<^verbatim>\<open>upsert_records\<close>: a record whose statement fails is logged and skipped,
  the others are counted. The model takes a failed statement to leave the table as it was
  and the statements after it to run; the transaction commits when the loop ends.
\<close>

fun upsert_loop :: "nat \<Rightarrow> tableau_record list \<Rightarrow> 'e store \<Rightarrow> nat \<Rightarrow> 'e store \<times> nat" where
  "upsert_loop now [] s processed_count = (s, processed_count)"
| "upsert_loop now (r # rs) s processed_count =
     (case execute_upsert now (record_data r) s of
        Inl e \<Rightarrow> upsert_loop now rs s processed_count
      | Inr s' \<Rightarrow> upsert_loop now rs s' (processed_count + 1))"

text \<open>
  \<^verbatim>\<open>upsert_records\<close>, in one transaction begun at \<open>now\<close>: nothing to do for no records;
  the error of \<^verbatim>\<open>engine.begin()\<close> is raised again when the database cannot be reached.
\<close>

definition upsert_records ::
  "nat \<Rightarrow> tableau_record list \<Rightarrow> 'e store \<Rightarrow> (error + nat) \<times> 'e store" where
  "upsert_records now records s =
     (if records = [] then (Inr 0, s)
      else if \<not> reachable s then (Inl SQLAlchemyError, s)
      else (case upsert_loop now records s 0 of (s', n) \<Rightarrow> (Inr n, s')))"

text \<open>\<^verbatim>\<open>records[i:i + batch_size] for i in range(0, total_records, batch_size)\<close>\<close>

function batches :: "nat \<Rightarrow> 'a list \<Rightarrow> 'a list list" where
  "batches n xs = (if n = 0 \<or> xs = [] then [] else take n xs # batches n (drop n xs))"
  by pat_completeness auto
termination
  by (relation "measure (\<lambda>(n, xs). length xs)") auto

declare batches.simps [simp del]

text \<open>
  The loop of \<^verbatim>\<open>upsert_records_batch\<close>: every batch is a transaction of its own, batch
  number \<open>i\<close> begun at time \<open>clock i\<close>; a batch that raises is logged and skipped.
\<close>

fun batch_loop ::
  "(nat \<Rightarrow> nat) \<Rightarrow> nat \<Rightarrow> tableau_record list list \<Rightarrow> 'e store \<Rightarrow> nat \<Rightarrow> 'e store \<times> nat" where
  "batch_loop clock i [] s total_processed = (s, total_processed)"
| "batch_loop clock i (b # bs) s total_processed =
     (case upsert_records (clock i) b s of
        (Inl e, s') \<Rightarrow> batch_loop clock (Suc i) bs s' total_processed
      | (Inr processed, s') \<Rightarrow> batch_loop clock (Suc i) bs s' (total_processed + processed))"

text \<open>
  \<^verbatim>\<open>upsert_records_batch\<close>. A batch size of zero makes \<^verbatim>\<open>range\<close> raise, a negative
  one makes it empty.
\<close>

definition upsert_records_batch ::
  "(nat \<Rightarrow> nat) \<Rightarrow> tableau_record list \<Rightarrow> int \<Rightarrow> 'e store \<Rightarrow> (error + nat) \<times> 'e store" where
  "upsert_records_batch clock records batch_size s =
     (if records = [] then (Inr 0, s)
      else if batch_size = 0 then (Inl (ValueError ''range() arg 3 must not be zero''), s)
      else if batch_size < 0 then (Inr 0, s)
      else (case batch_loop clock 0 (batches (nat batch_size) records) s 0 of
              (s', n) \<Rightarrow> (Inr n, s')))"

text \<open>\<^verbatim>\<open>get_record_count\<close>: a filter is added for each argument that is given and not empty.\<close>

definition get_record_count :: "string option \<Rightarrow> string option \<Rightarrow> 'e store \<Rightarrow> error + nat" where
  "get_record_count sid otype s =
     (if \<not> reachable s then Inl SQLAlchemyError
      else Inr (length (filter
             (\<lambda>r. (if truthy sid then row_site_id r = the sid else True)
                 \<and> (if truthy otype then row_object_type r = the otype else True))
             (rows s))))"

text \<open>
  \<^verbatim>\<open>get_embedding_stats\<close>: the three counts; the percentage, a float computed from them,
  is left out.
\<close>

definition get_embedding_stats :: "'e store \<Rightarrow> error + (nat \<times> nat \<times> nat)" where
  "get_embedding_stats s =
     (if \<not> reachable s then Inl SQLAlchemyError
      else Inr (length (rows s),
                length (filter (\<lambda>r. embedding r \<noteq> None) (rows s)),
                length (rows s) - length (filter (\<lambda>r. embedding r \<noteq> None) (rows s))))"

section \<open>Embedding Generator\<close>

text \<open>
  \<^verbatim>\<open>get_unembedded_records\<close>: the rows without an embedding, the most recently updated
  first (rows updated at the same time in the order of the table, which SQL leaves open),
  at most \<^verbatim>\<open>limit\<close> of them when a limit is given and not zero.
\<close>

definition get_unembedded_records :: "nat option \<Rightarrow> 'e store \<Rightarrow> error + 'e row list" where
  "get_unembedded_records limit s =
     (if \<not> reachable s then Inl SQLAlchemyError
      else let found = rev (sort_key updated_at (rev (filter (\<lambda>r. embedding r = None) (rows s))))
           in Inr (case limit of
                     None \<Rightarrow> found
                   | Some n \<Rightarrow> if n = 0 then found else take n found))"

text \<open>
  \<^verbatim>\<open>update_embeddings\<close>: the embedding is written back by primary key, one statement for
  each pair.
\<close>

fun update_loop :: "(nat \<times> 'e) list \<Rightarrow> 'e row list \<Rightarrow> 'e row list" where
  "update_loop [] rs = rs"
| "update_loop ((i, emb) # pairs) rs =
     update_loop pairs (map (\<lambda>r. if row_id r = i then r\<lparr>embedding := Some emb\<rparr> else r) rs)"

definition update_embeddings :: "'e row list \<Rightarrow> 'e list \<Rightarrow> 'e store \<Rightarrow> (error + nat) \<times> 'e store" where
  "update_embeddings records embeddings s =
     (if length records \<noteq> length embeddings
      then (Inl (ValueError ''Number of records and embeddings must match''), s)
      else if \<not> reachable s then (Inl SQLAlchemyError, s)
      else (Inr (length records),
            s\<lparr>rows := update_loop (zip (map row_id records) embeddings) (rows s)\<rparr>))"

text \<open>The table as its unique constraint keeps it: no two rows with the same key.\<close>

definition unique_keys :: "'e store \<Rightarrow> bool" where
  "unique_keys s = distinct (map key_of (rows s))"

text \<open>The rows stored under a key.\<close>

definition rows_keyed :: "string \<times> string \<times> string \<Rightarrow> 'e store \<Rightarrow> 'e row list" where
  "rows_keyed k s = filter (\<lambda>r. key_of r = k) (rows s)"

definition empty_store :: "'e store" where
  "empty_store = \<lparr> reachable = True, rows = [], next_id = 1 \<rparr>"

text \<open>A sequence of calls of \<^verbatim>\<open>upsert_records\<close>, each with the time of its transaction.\<close>

fun upsert_sequence :: "(nat \<times> tableau_record list) list \<Rightarrow> 'e store \<Rightarrow> 'e store" where
  "upsert_sequence [] s = s"
| "upsert_sequence ((now, records) # calls) s =
     upsert_sequence calls (snd (upsert_records now records s))"

text \<open>
  A store that holds the example record, written at time 10 and embedded since (the
  embedding stands for a vector).
\<close>

definition embedded_store :: "nat store" where
  "embedded_store =
     \<lparr> reachable = True,
       rows = [(inserted_row 1 10 (record_data example_record))\<lparr>embedding := Some 7\<rparr>],
       next_id = 2 \<rparr>"

section \<open>Platform Client\<close>

text \<open>The collections of a site that the client lists page by page.\<close>

datatype collection = Workbooks | Views | Datasources

text \<open>
  An outbound request of \<^verbatim>\<open>client.py\<close>: the sign-in with the name and the secret of the
  access token and the name of the site; the sign-out with the session token in its
  \<^verbatim>\<open>X-Tableau-Auth\<close> header; one page of a collection, with the site id of the URL, the
  header, \<^verbatim>\<open>pageNumber\<close> and the \<^verbatim>\<open>filter\<close> parameter (\<^verbatim>\<open>pageSize\<close> is always 100);
  the views of a workbook and the details of a workbook, with the site id, the workbook id
  and the header.
\<close>

datatype request =
    SigninRequest string string string
  | SignoutRequest string
  | ListRequest collection "string option" string nat "string option"
  | WorkbookViewsRequest "string option" string string
  | WorkbookDetailsRequest "string option" string string

text \<open>
  What a parsed answer holds: the credentials element with its token attribute and its site
  element (which may lack the id), the element of a collection with its items, a workbook
  element, or none of these.
\<close>

datatype response =
    Credentials "string option" "string option option"
  | Collection collection "rest_object list"
  | Element rest_object
  | NoElement

text \<open>
  The server, as the client sees it through \<^verbatim>\<open>session.get\<close> or \<^verbatim>\<open>session.post\<close>,
  \<^verbatim>\<open>raise_for_status\<close> and \<^verbatim>\<open>_parse_xml_response\<close>: from the requests sent so far and
  the request, a \<^verbatim>\<open>RequestException\<close> (transport or HTTP status), another exception (an
  error element, a document that does not parse), or the parsed document.
\<close>

type_synonym server = "request list \<Rightarrow> request \<Rightarrow> error + response"

record client =
  pat_name :: string
  pat_secret :: string
  site_name :: string
  token :: "string option"
  client_site_id :: "string option"
  sent :: "request list"

text \<open>\<^verbatim>\<open>TableauClient.__init__\<close>; every request goes to the one server of the client.\<close>

definition TableauClient :: "string \<Rightarrow> string \<Rightarrow> string \<Rightarrow> client" where
  "TableauClient name secret site =
     \<lparr> pat_name = name, pat_secret = secret, site_name = site, token = None,
       client_site_id = None, sent = [] \<rparr>"

definition send :: "server \<Rightarrow> request \<Rightarrow> client \<Rightarrow> (error + response) \<times> client" where
  "send server req c = (server (sent c) req, c\<lparr>sent := sent c @ [req]\<rparr>)"

definition collection_of :: "collection \<Rightarrow> response \<Rightarrow> rest_object list option" where
  "collection_of coll resp =
     (case resp of Collection k xs \<Rightarrow> if k = coll then Some xs else None | _ \<Rightarrow> None)"

text \<open>
  \<^verbatim>\<open>signin\<close>: a \<^verbatim>\<open>RequestException\<close> gives \<^verbatim>\<open>False\<close>, any other exception leaves the
  function; the token is stored before the site element is looked at.
\<close>

definition signin :: "server \<Rightarrow> client \<Rightarrow> (error + bool) \<times> client" where
  "signin server c =
     (case send server (SigninRequest (pat_name c) (pat_secret c) (site_name c)) c of
        (Inl e, c1) \<Rightarrow> if e = RequestException then (Inr False, c1) else (Inl e, c1)
      | (Inr resp, c1) \<Rightarrow>
          (case resp of
             Credentials tok site \<Rightarrow>
               (if \<not> truthy tok then (Inr False, c1\<lparr>token := tok\<rparr>)
                else case site of
                       None \<Rightarrow> (Inr False, c1\<lparr>token := tok\<rparr>)
                     | Some sid \<Rightarrow>
                         (if \<not> truthy sid
                          then (Inr False, c1\<lparr>token := tok, client_site_id := sid\<rparr>)
                          else (Inr True, c1\<lparr>token := tok, client_site_id := sid\<rparr>)))
           | _ \<Rightarrow> (Inr False, c1)))"

text \<open>\<^verbatim>\<open>_headers\<close>: the value of the \<^verbatim>\<open>X-Tableau-Auth\<close> header.\<close>

definition headers :: "client \<Rightarrow> error + string" where
  "headers c =
     (if \<not> truthy (token c) then Inl (ValueError ''Not authenticated. Call signin() first.'')
      else Inr (the (token c)))"

text \<open>\<^verbatim>\<open>params["filter"]\<close>, set when a project filter is given and not empty.\<close>

definition filter_param :: "string list option \<Rightarrow> string option" where
  "filter_param project_filter =
     (if truthy project_filter
      then Some (''projectName:in:['' @ join '','' (the project_filter) @ '']'')
      else None)"

text \<open>
  The \<^verbatim>\<open>while True\<close> loop that \<^verbatim>\<open>list_workbooks\<close>, \<^verbatim>\<open>list_views\<close> and
  \<^verbatim>\<open>list_datasources\<close> each have, the same but for the collection: the pages are asked
  for one after the other, until one has fewer than 100 items (a document without the
  collection has none). An exception leaves the loop and the function. The loop need not
  end: the result is an option.
\<close>

partial_function (option) list_loop ::
  "server \<Rightarrow> collection \<Rightarrow> string list option \<Rightarrow> nat \<Rightarrow> rest_object list \<Rightarrow> client
     \<Rightarrow> ((error + rest_object list) \<times> client) option" where
  "list_loop server coll project_filter page items c =
     (case headers c of
        Inl e \<Rightarrow> Some (Inl e, c)
      | Inr tok \<Rightarrow>
          (case send server
                  (ListRequest coll (client_site_id c) tok page (filter_param project_filter)) c of
             (Inl e, c1) \<Rightarrow> Some (Inl e, c1)
           | (Inr resp, c1) \<Rightarrow>
               (if length (or_empty (collection_of coll resp)) < 100
                then Some (Inr (items @ or_empty (collection_of coll resp)), c1)
                else list_loop server coll project_filter (page + 1)
                       (items @ or_empty (collection_of coll resp)) c1)))"

definition list_workbooks ::
  "server \<Rightarrow> string list option \<Rightarrow> client \<Rightarrow> ((error + rest_object list) \<times> client) option" where
  "list_workbooks server project_filter c =
     (if \<not> truthy (token c)
      then Some (Inl (ValueError ''Not authenticated. Call signin() first.''), c)
      else list_loop server Workbooks project_filter 1 [] c)"

definition list_views ::
  "server \<Rightarrow> string list option \<Rightarrow> client \<Rightarrow> ((error + rest_object list) \<times> client) option" where
  "list_views server project_filter c =
     (if \<not> truthy (token c)
      then Some (Inl (ValueError ''Not authenticated. Call signin() first.''), c)
      else list_loop server Views project_filter 1 [] c)"

definition list_datasources ::
  "server \<Rightarrow> string list option \<Rightarrow> client \<Rightarrow> ((error + rest_object list) \<times> client) option" where
  "list_datasources server project_filter c =
     (if \<not> truthy (token c)
      then Some (Inl (ValueError ''Not authenticated. Call signin() first.''), c)
      else list_loop server Datasources project_filter 1 [] c)"

text \<open>\<^verbatim>\<open>list_views_for_workbook\<close>: one request, no pages.\<close>

definition list_views_for_workbook ::
  "server \<Rightarrow> string \<Rightarrow> client \<Rightarrow> (error + rest_object list) \<times> client" where
  "list_views_for_workbook server workbook_id c =
     (if \<not> truthy (token c)
      then (Inl (ValueError ''Not authenticated. Call signin() first.''), c)
      else case headers c of
             Inl e \<Rightarrow> (Inl e, c)
           | Inr tok \<Rightarrow>
               (case send server (WorkbookViewsRequest (client_site_id c) workbook_id tok) c of
                  (Inl e, c1) \<Rightarrow> (Inl e, c1)
                | (Inr resp, c1) \<Rightarrow> (Inr (or_empty (collection_of Views resp)), c1)))"

text \<open>The empty dictionary.\<close>

definition empty_object :: rest_object where
  "empty_object =
     \<lparr> raw_id = Absent, raw_name = Absent, raw_description = Absent, raw_tags = Absent,
       raw_project = Absent, raw_owner = Absent, raw_workbook = Absent,
       raw_contentUrl = Absent \<rparr>"

text \<open>\<^verbatim>\<open>get_workbook_details\<close>: the workbook element, or the empty dictionary.\<close>

definition get_workbook_details ::
  "server \<Rightarrow> string \<Rightarrow> client \<Rightarrow> (error + rest_object) \<times> client" where
  "get_workbook_details server workbook_id c =
     (if \<not> truthy (token c)
      then (Inl (ValueError ''Not authenticated. Call signin() first.''), c)
      else case headers c of
             Inl e \<Rightarrow> (Inl e, c)
           | Inr tok \<Rightarrow>
               (case send server (WorkbookDetailsRequest (client_site_id c) workbook_id tok) c of
                  (Inl e, c1) \<Rightarrow> (Inl e, c1)
                | (Inr resp, c1) \<Rightarrow>
                    (Inr (case resp of Element workbook \<Rightarrow> workbook | _ \<Rightarrow> empty_object), c1)))"

text \<open>
  \<^verbatim>\<open>signout\<close>: nothing to do without a token; the answer is not parsed, so the one
  failure is that of the request, after which the token is kept.
\<close>

definition signout :: "server \<Rightarrow> client \<Rightarrow> bool \<times> client" where
  "signout server c =
     (if \<not> truthy (token c) then (True, c)
      else case send server (SignoutRequest (the (token c))) c of
             (Inl e, c1) \<Rightarrow> (False, c1)
           | (Inr resp, c1) \<Rightarrow> (True, c1\<lparr>token := None, client_site_id := None\<rparr>))"

section \<open>Pagination Driver\<close>

record pagination_helper =
  page_size :: int
  max_pages :: "int option"

text \<open>\<^verbatim>\<open>PaginationHelper.__init__\<close>, whose defaults are 100 and \<^verbatim>\<open>None\<close>.\<close>

definition PaginationHelper :: "int \<Rightarrow> int option \<Rightarrow> pagination_helper" where
  "PaginationHelper psize cap = \<lparr> page_size = psize, max_pages = cap \<rparr>"

text \<open>\<^verbatim>\<open>self.max_pages and page >= self.max_pages\<close>\<close>

definition cap_reached :: "int option \<Rightarrow> nat \<Rightarrow> bool" where
  "cap_reached cap page = (case cap of None \<Rightarrow> False | Some m \<Rightarrow> m \<noteq> 0 \<and> m \<le> int page)"

text \<open>
  The loop of \<^verbatim>\<open>paginate_requests\<close>, with the page to ask for, the results so far and
  the pages asked for so far. \<^verbatim>\<open>fetch_func\<close> is called with the page and the page size;
  when it raises, the loop ends with what it has. The loop need not end: the result is an
  option.
\<close>

partial_function (option) paginate_loop ::
  "pagination_helper \<Rightarrow> (nat \<Rightarrow> int \<Rightarrow> error + 'a list) \<Rightarrow> nat \<Rightarrow> 'a list \<Rightarrow> nat list
     \<Rightarrow> ('a list \<times> nat list) option" where
  "paginate_loop self fetch_func page all_results requested =
     (case fetch_func page (page_size self) of
        Inl e \<Rightarrow> Some (all_results, requested @ [page])
      | Inr results \<Rightarrow>
          (if results = [] then Some (all_results, requested @ [page])
           else if int (length results) < page_size self
           then Some (all_results @ results, requested @ [page])
           else if cap_reached (max_pages self) page
           then Some (all_results @ results, requested @ [page])
           else paginate_loop self fetch_func (page + 1) (all_results @ results)
                  (requested @ [page])))"

text \<open>\<^verbatim>\<open>paginate_requests\<close>: all the results, and the pages that were asked for.\<close>

definition paginate_requests ::
  "pagination_helper \<Rightarrow> (nat \<Rightarrow> int \<Rightarrow> error + 'a list) \<Rightarrow> ('a list \<times> nat list) option" where
  "paginate_requests self fetch_func = paginate_loop self fetch_func 1 [] []"

text \<open>
  A source of the items \<open>xs\<close>: page number \<open>page\<close> of size \<open>P\<close> holds the items from
  position \<open>(page - 1) * P\<close> on, at most \<open>P\<close> of them.
\<close>

definition page_of :: "nat \<Rightarrow> 'a list \<Rightarrow> nat \<Rightarrow> 'a list" where
  "page_of P xs page = take P (drop ((page - 1) * P) xs)"

definition paged_source :: "'a list \<Rightarrow> nat \<Rightarrow> int \<Rightarrow> error + 'a list" where
  "paged_source xs page psize = Inr (page_of (nat psize) xs page)"

text \<open>A server that holds the workbooks \<open>xs\<close> and answers nothing else.\<close>

definition paged_server :: "rest_object list \<Rightarrow> server" where
  "paged_server xs history req =
     (case req of
        ListRequest coll sid tok page flt \<Rightarrow>
          if coll = Workbooks then Inr (Collection Workbooks (page_of 100 xs page))
          else Inl RequestException
      | _ \<Rightarrow> Inl RequestException)"

text \<open>A client that holds a session token.\<close>

definition signed_in :: client where
  "signed_in = (TableauClient ''pat'' ''secret'' ''Main'')
                 \<lparr>token := Some ''tok'', client_site_id := Some ''s1''\<rparr>"


section \<open>Hybrid Search Engine\<close>

text \<open>
  What \<^verbatim>\<open>semantic_search.py\<close> takes from outside: the sentence-transformer model, whose
  loading or encoding may raise; the cosine distance \<^verbatim>\<open><=>\<close> of pgvector; the full-text
  match \<^verbatim>\<open>@@\<close> and \<^verbatim>\<open>ts_rank\<close> of PostgreSQL, of a text blob and a query; and, for
  each of the two statements, the error with which the database may answer it whatever the
  rows are (a missing extension, a vector of another dimension, a lost connection).
\<close>

record 'e backend =
  encode :: "string \<Rightarrow> error + 'e"
  cosine_distance :: "'e \<Rightarrow> 'e \<Rightarrow> real"
  ts_match :: "string \<Rightarrow> string \<Rightarrow> bool"
  ts_rank :: "string \<Rightarrow> string \<Rightarrow> real"
  vector_fault :: "error option"
  text_fault :: "error option"

text \<open>\<^verbatim>\<open>try: body except Exception as e: handler\<close>\<close>

definition try_except :: "error + 'a \<Rightarrow> (error \<Rightarrow> error + 'a) \<Rightarrow> error + 'a" where
  "try_except body handler = (case body of Inl e \<Rightarrow> handler e | Inr v \<Rightarrow> Inr v)"

text \<open>
  The statement of \<^verbatim>\<open>_vector_search\<close>, begun on a connection of the engine: the rows with
  an embedding, in the order of their distance to the query embedding (rows at the same
  distance in the order of the table, which SQL leaves open), at most \<^verbatim>\<open>limit\<close> of them,
  each with \<^verbatim>\<open>1 - distance\<close> as its score. A negative \<^verbatim>\<open>LIMIT\<close> is an error of the
  database. A result is the row and its \<^verbatim>\<open>similarity_score\<close>.
\<close>

definition execute_vector_query ::
  "'e backend \<Rightarrow> 'e store \<Rightarrow> 'e \<Rightarrow> int \<Rightarrow> error + ('e row \<times> real) list" where
  "execute_vector_query be s query_embedding limit =
     (if \<not> reachable s then Inl SQLAlchemyError
      else case vector_fault be of
             Some e \<Rightarrow> Inl e
           | None \<Rightarrow>
               if limit < 0 then Inl SQLAlchemyError
               else Inr (map (\<lambda>r. (r, 1 - cosine_distance be (the (embedding r)) query_embedding))
                          (take (nat limit)
                             (sort_key (\<lambda>r. cosine_distance be (the (embedding r)) query_embedding)
                                (filter (\<lambda>r. embedding r \<noteq> None) (rows s))))))"

text \<open>
  \<^verbatim>\<open>_vector_search\<close>: the rows of the statement whose score is at least the threshold;
  any exception is logged and gives the empty list.
\<close>

definition vector_search ::
  "'e backend \<Rightarrow> 'e store \<Rightarrow> 'e \<Rightarrow> int \<Rightarrow> real \<Rightarrow> error + ('e row \<times> real) list" where
  "vector_search be s query_embedding limit threshold =
     try_except
       (case execute_vector_query be s query_embedding limit of
          Inl e \<Rightarrow> Inl e
        | Inr result \<Rightarrow> Inr (filter (\<lambda>(r, similarity). similarity \<ge> threshold) result))
       (\<lambda>e. Inr [])"

text \<open>
  The statement of \<^verbatim>\<open>_text_search\<close>: the rows whose text blob matches the query, the
  highest rank first, at most \<^verbatim>\<open>limit\<close> of them, each with its rank as its score.
\<close>

definition execute_text_query ::
  "'e backend \<Rightarrow> 'e store \<Rightarrow> string \<Rightarrow> int \<Rightarrow> error + ('e row \<times> real) list" where
  "execute_text_query be s query limit =
     (if \<not> reachable s then Inl SQLAlchemyError
      else case text_fault be of
             Some e \<Rightarrow> Inl e
           | None \<Rightarrow>
               if limit < 0 then Inl SQLAlchemyError
               else Inr (map (\<lambda>r. (r, ts_rank be (row_text_blob r) query))
                          (take (nat limit)
                             (sort_key (\<lambda>r. - ts_rank be (row_text_blob r) query)
                                (filter (\<lambda>r. ts_match be (row_text_blob r) query) (rows s))))))"

text \<open>\<^verbatim>\<open>_text_search\<close>: any exception is logged and gives the empty list.\<close>

definition text_search ::
  "'e backend \<Rightarrow> 'e store \<Rightarrow> string \<Rightarrow> int \<Rightarrow> error + ('e row \<times> real) list" where
  "text_search be s query limit =
     try_except (execute_text_query be s query limit) (\<lambda>e. Inr [])"

text \<open>
  \<^verbatim>\<open>SemanticSearch.search\<close>: nothing for a query that is empty once stripped; the text
  search when the vector search has no result, and when the model or anything else in the
  \<^verbatim>\<open>try\<close> block raises.
\<close>

definition search ::
  "'e backend \<Rightarrow> 'e store \<Rightarrow> string \<Rightarrow> int \<Rightarrow> real \<Rightarrow> error + ('e row \<times> real) list" where
  "search be s query limit similarity_threshold =
     (if strip query = [] then Inr []
      else try_except
             (case encode be query of
                Inl e \<Rightarrow> Inl e
              | Inr query_embedding \<Rightarrow>
                  (case vector_search be s query_embedding limit similarity_threshold of
                     Inl e \<Rightarrow> Inl e
                   | Inr results \<Rightarrow>
                       if results = [] then text_search be s query limit else Inr results))
             (\<lambda>e. text_search be s query limit))"

text \<open>
  The two steps in the words of the specification. The vector step: the rows with an
  embedding ranked by cosine similarity, the highest first; the first \<^verbatim>\<open>limit\<close> of them;
  of these, the ones whose similarity is at least the threshold. The lexical step: the
  rows that match ranked by lexical relevance, the first \<^verbatim>\<open>limit\<close> of them.
\<close>

definition similarity :: "'e backend \<Rightarrow> 'e \<Rightarrow> 'e row \<Rightarrow> real" where
  "similarity be q r = 1 - cosine_distance be (the (embedding r)) q"

definition spec_vector_step ::
  "'e backend \<Rightarrow> 'e store \<Rightarrow> 'e \<Rightarrow> int \<Rightarrow> real \<Rightarrow> ('e row \<times> real) list" where
  "spec_vector_step be s q limit threshold =
     filter (\<lambda>(r, sim). threshold \<le> sim)
       (take (nat limit)
          (map (\<lambda>r. (r, similarity be q r))
             (sort_key (\<lambda>r. - similarity be q r) (filter (\<lambda>r. embedding r \<noteq> None) (rows s)))))"

definition spec_lexical_step ::
  "'e backend \<Rightarrow> 'e store \<Rightarrow> string \<Rightarrow> int \<Rightarrow> ('e row \<times> real) list" where
  "spec_lexical_step be s query limit =
     take (nat limit)
       (map (\<lambda>r. (r, ts_rank be (row_text_blob r) query))
          (sort_key (\<lambda>r. - ts_rank be (row_text_blob r) query)
             (filter (\<lambda>r. ts_match be (row_text_blob r) query) (rows s))))"

text \<open>
  A backend for the examples: every text has the embedding 0, the distance of two
  embeddings is 1/4 when they are equal and 1 otherwise, a text blob matches a query it
  begins with, and every rank is 1/10.
\<close>

definition example_backend :: "nat backend" where
  "example_backend =
     \<lparr> encode = (\<lambda>text. Inr 0),
       cosine_distance = (\<lambda>a b. if a = b then 1 / 4 else 1),
       ts_match = (\<lambda>blob query. startswith blob query),
       ts_rank = (\<lambda>blob query. 1 / 10),
       vector_fault = None,
       text_fault = None \<rparr>"

text \<open>A store with two embedded rows, at the distances 1/4 and 1 from the embedding 0.\<close>

definition searched_store :: "nat store" where
  "searched_store =
     \<lparr> reachable = True,
       rows = [(inserted_row 1 10 (record_data example_record))\<lparr>embedding := Some 7\<rparr>,
               (inserted_row 2 10 (record_data (example_record\<lparr>object_id := Some ''wb-2''\<rparr>)))
                 \<lparr>embedding := Some 0\<rparr>,
               inserted_row 3 10 (record_data (example_record\<lparr>object_id := Some ''wb-3''\<rparr>))],
       next_id = 4 \<rparr>"


section \<open>The metadata fetch of the enhanced client\<close>

text \<open>
  \<^verbatim>\<open>EnhancedTableauClient\<close> wraps a \<^verbatim>\<open>TableauClient\<close>; its sign-in, sign-out and site id
  are those of the wrapped client, which stands for it here.

  The dictionary stamped on a view: the name of the parent workbook and the name of its
  project.
\<close>

definition stamp :: "rest_object \<Rightarrow> rest_object \<Rightarrow> rest_object" where
  "stamp workbook view =
     view\<lparr>raw_workbook := Val [(''name'', get (raw_name workbook)),
                               (''projectName'', nested_name (raw_project workbook) ''name'')]\<rparr>"

text \<open>
  The loop over the workbooks in \<^verbatim>\<open>fetch_comprehensive_metadata\<close>: a workbook without an
  id is passed over, and so is one whose views cannot be fetched.
\<close>

fun fetch_views ::
  "server \<Rightarrow> rest_object list \<Rightarrow> rest_object list \<Rightarrow> client \<Rightarrow> rest_object list \<times> client" where
  "fetch_views server [] all_views c = (all_views, c)"
| "fetch_views server (workbook # rest) all_views c =
     (if truthy (get (raw_id workbook))
      then (case list_views_for_workbook server (the (get (raw_id workbook))) c of
              (Inl e, c1) \<Rightarrow> fetch_views server rest all_views c1
            | (Inr found, c1) \<Rightarrow> fetch_views server rest (all_views @ map (stamp workbook) found) c1)
      else fetch_views server rest all_views c)"

text \<open>\<^verbatim>\<open>object_types is None or t in object_types\<close>\<close>

definition wants :: "string list option \<Rightarrow> string \<Rightarrow> bool" where
  "wants object_types t = (case object_types of None \<Rightarrow> True | Some ts \<Rightarrow> t \<in> set ts)"

text \<open>
  \<^verbatim>\<open>fetch_comprehensive_metadata\<close>: the workbooks, the data sources, and the views of the
  workbooks just fetched, each kind when it is asked for; an exception of the first two
  listings is raised again. The listings are loops that need not end.
\<close>

definition fetch_comprehensive_metadata ::
  "server \<Rightarrow> string list option \<Rightarrow> client \<Rightarrow> ((error + metadata) \<times> client) option" where
  "fetch_comprehensive_metadata server object_types c =
     (if \<not> truthy (client_site_id c) then Some (Inl (ValueError ''No site ID available''), c)
      else case (if wants object_types ''workbooks'' then list_workbooks server None c
                 else Some (Inr [], c)) of
             None \<Rightarrow> None
           | Some (Inl e, c1) \<Rightarrow> Some (Inl e, c1)
           | Some (Inr wbs, c1) \<Rightarrow>
               (case (if wants object_types ''datasources'' then list_datasources server None c1
                      else Some (Inr [], c1)) of
                  None \<Rightarrow> None
                | Some (Inl e, c2) \<Rightarrow> Some (Inl e, c2)
                | Some (Inr dss, c2) \<Rightarrow>
                    (case (if wants object_types ''views'' then fetch_views server wbs [] c2
                           else ([], c2)) of
                       (vws, c3) \<Rightarrow>
                         Some (Inr \<lparr> workbooks = wbs, datasources = dss, views = vws \<rparr>, c3))))"

section \<open>The indexing run\<close>

text \<open>
  The dictionary \<^verbatim>\<open>stats\<close> of \<^verbatim>\<open>index_site\<close>: its five counters, and the two entries
  that a completed run with quality checks adds.
\<close>

record stats =
  stat_workbooks :: nat
  stat_datasources :: nat
  stat_views :: nat
  total_processed :: nat
  errors :: nat
  stat_quality_results :: "quality_results option"
  recommendations :: "string list option"

definition initial_stats :: stats where
  "initial_stats =
     \<lparr> stat_workbooks = 0, stat_datasources = 0, stat_views = 0, total_processed = 0,
       errors = 0, stat_quality_results = None, recommendations = None \<rparr>"

text \<open>\<^verbatim>\<open>stats["errors"] += 1\<close>\<close>

definition failed :: "stats \<Rightarrow> stats" where
  "failed st = st\<lparr>errors := errors st + 1\<rparr>"

text \<open>
  \<^verbatim>\<open>if obj_type in stats: stats[obj_type] += 1\<close>, for the five keys the dictionary has
  then. The normalizer writes the types in the singular, the keys are in the plural.
\<close>

definition count_type :: "tableau_record \<Rightarrow> stats \<Rightarrow> stats" where
  "count_type r st =
     (if object_type r = Some ''workbooks'' then st\<lparr>stat_workbooks := stat_workbooks st + 1\<rparr>
      else if object_type r = Some ''datasources''
      then st\<lparr>stat_datasources := stat_datasources st + 1\<rparr>
      else if object_type r = Some ''views'' then st\<lparr>stat_views := stat_views st + 1\<rparr>
      else if object_type r = Some ''total_processed''
      then st\<lparr>total_processed := total_processed st + 1\<rparr>
      else if object_type r = Some ''errors'' then st\<lparr>errors := errors st + 1\<rparr>
      else st)"

text \<open>
  \<^verbatim>\<open>if max_objects and len(records) > max_objects: records = records[:max_objects]\<close>; a
  negative bound cuts from the end.
\<close>

definition limit_records :: "int option \<Rightarrow> 'a list \<Rightarrow> 'a list" where
  "limit_records max_objects records =
     (case max_objects of
        None \<Rightarrow> records
      | Some m \<Rightarrow>
          if m \<noteq> 0 \<and> int (length records) > m
          then (if 0 \<le> m then take (nat m) records
                else take (length records - nat (- m)) records)
          else records)"

text \<open>
  The \<^verbatim>\<open>try\<close> block of \<^verbatim>\<open>index_site\<close> with its \<^verbatim>\<open>except\<close> clause, which counts an
  error and returns the statistics: the sign-in, the count of the rows of the site, the
  fetch, the normalisation, the bound on the number of records, the quality gate, the
  counts, the upsert in batches of 50 (batch number \<open>i\<close> at time \<open>clock i\<close>), and the
  final counts. The result is the statistics, the client and the store. The parameter
  \<^verbatim>\<open>project_filter\<close> is not read. \<^verbatim>\<open>run_all_checks\<close> does not raise on records of these
  types, so the handler around it is not taken.
\<close>

definition index_site_try ::
  "server \<Rightarrow> (nat \<Rightarrow> nat) \<Rightarrow> string \<Rightarrow> string \<Rightarrow> string \<Rightarrow> string option \<Rightarrow> string list option
     \<Rightarrow> bool \<Rightarrow> int option \<Rightarrow> 'e store \<Rightarrow> (stats \<times> client \<times> 'e store) option" where
  "index_site_try server clock name secret site project_filter object_types
       enable_quality_checks max_objects s =
     (case signin server (TableauClient name secret site) of
        (Inl e, c1) \<Rightarrow> Some (failed initial_stats, c1, s)
      | (Inr authenticated, c1) \<Rightarrow>
          if \<not> authenticated then Some (initial_stats, c1, s)
          else
            (case get_record_count (client_site_id c1) None s of
               Inl e \<Rightarrow> Some (failed initial_stats, c1, s)
             | Inr initial_count \<Rightarrow>
                 (case fetch_comprehensive_metadata server
                         (if truthy object_types then object_types else None) c1 of
                    None \<Rightarrow> None
                  | Some (Inl e, c2) \<Rightarrow> Some (failed initial_stats, c2, s)
                  | Some (Inr md, c2) \<Rightarrow>
                      (case prepare_objects_for_indexing (client_site_id c2) md of
                         Inl e \<Rightarrow> Some (failed initial_stats, c2, s)
                       | Inr prepared \<Rightarrow>
                           if prepared = [] then Some (initial_stats, c2, s)
                           else
                             (let records = limit_records max_objects prepared;
                                  quality_results =
                                    (if enable_quality_checks \<and> records \<noteq> []
                                     then Some (fst (run_all_checks records
                                            (QualityChecker (the (client_site_id c1)) site)))
                                     else None)
                              in if (case quality_results of
                                       None \<Rightarrow> False
                                     | Some qr \<Rightarrow> \<not> overall_quality qr)
                                 then Some (failed initial_stats, c2, s)
                                 else
                                   (let st = (fold count_type records initial_stats)
                                               \<lparr>total_processed := length records\<rparr>
                                    in case upsert_records_batch clock records 50 s of
                                         (Inl e, s1) \<Rightarrow> Some (failed st, c2, s1)
                                       | (Inr processed_count, s1) \<Rightarrow>
                                           (case get_record_count (client_site_id c1) None s1 of
                                              Inl e \<Rightarrow> Some (failed st, c2, s1)
                                            | Inr final_count \<Rightarrow>
                                                (case get_embedding_stats s1 of
                                                   Inl e \<Rightarrow> Some (failed st, c2, s1)
                                                 | Inr embedding_stats \<Rightarrow>
                                                     Some (case quality_results of
                                                             None \<Rightarrow> st
                                                           | Some qr \<Rightarrow>
                                                               st\<lparr>stat_quality_results := Some qr,
                                                                  recommendations :=
                                                                    Some (get_indexing_recommendations qr)\<rparr>,
                                                           c2, s1)))))))))"

text \<open>
  \<^verbatim>\<open>index_site\<close>: the \<^verbatim>\<open>try\<close> block, and the sign-out of the \<^verbatim>\<open>finally\<close> clause,
  whose failure is ignored.
\<close>

definition index_site ::
  "server \<Rightarrow> (nat \<Rightarrow> nat) \<Rightarrow> string \<Rightarrow> string \<Rightarrow> string \<Rightarrow> string option \<Rightarrow> string list option
     \<Rightarrow> bool \<Rightarrow> int option \<Rightarrow> 'e store \<Rightarrow> (stats \<times> client \<times> 'e store) option" where
  "index_site server clock name secret site project_filter object_types
       enable_quality_checks max_objects s =
     (case index_site_try server clock name secret site project_filter object_types
             enable_quality_checks max_objects s of
        None \<Rightarrow> None
      | Some (st, c, s') \<Rightarrow> Some (st, snd (signout server c), s'))"

text \<open>
  A server for the examples: it signs every client in to the site \<open>s1\<close>, holds the given
  workbooks, no data sources and no views, and answers every request.
\<close>

definition example_server :: "rest_object list \<Rightarrow> server" where
  "example_server wbs history req =
     (case req of
        SigninRequest n p sname \<Rightarrow> Inr (Credentials (Some ''tok'') (Some (Some ''s1'')))
      | SignoutRequest tok \<Rightarrow> Inr NoElement
      | ListRequest coll sid tok page flt \<Rightarrow>
          Inr (Collection coll (if coll = Workbooks then page_of 100 wbs page else []))
      | WorkbookViewsRequest sid wid tok \<Rightarrow> Inr (Collection Views [])
      | WorkbookDetailsRequest sid wid tok \<Rightarrow> Inr NoElement)"

text \<open>A second workbook, which has no name.\<close>

definition nameless_workbook :: rest_object where
  "nameless_workbook = example_rest_workbook\<lparr>raw_id := Val ''wb-2'', raw_name := Absent\<rparr>"


section \<open>Verified properties\<close>

subsection \<open>The text blob\<close>

lemma not_upper_lower_char: "\<not> is_upper_below_256 (lower_char c)"
  unfolding lower_char_def is_upper_below_256_def Let_def
  by (auto simp: of_char_of)

lemma is_space_lower_char: "is_space (lower_char c) = is_space c"
  unfolding lower_char_def is_upper_below_256_def is_space_def Let_def
  by (auto simp: of_char_of)

lemma is_space_blank: "is_space CHR '' ''"
  by (simp add: is_space_def)

lemma no_ws_run_lower: "no_ws_run (lower s) = no_ws_run s"
  unfolding lower_def
  by (induction s rule: no_ws_run.induct) (simp_all add: is_space_lower_char)

lemma re_sub_ws_hd: "re_sub_ws cs = d # ds \<Longrightarrow> is_space d \<Longrightarrow> cs \<noteq> [] \<and> is_space (hd cs)"
  by (cases cs) (auto split: if_splits)

lemma no_ws_run_re_sub_ws: "no_ws_run (re_sub_ws s)"
proof (induction s rule: re_sub_ws.induct)
  case 1
  show ?case by simp
next
  case (2 c cs)
  show ?case
  proof (cases "is_space c")
    case True
    show ?thesis
    proof (cases "re_sub_ws (dropWhile is_space cs)")
      case Nil
      with True show ?thesis by simp
    next
      case (Cons d ds)
      have "\<not> is_space d"
      proof
        assume "is_space d"
        with Cons have "dropWhile is_space cs \<noteq> [] \<and> is_space (hd (dropWhile is_space cs))"
          by (rule re_sub_ws_hd)
        then show False using hd_dropWhile [of is_space cs] by simp
      qed
      with True Cons 2 show ?thesis by simp
    qed
  next
    case False
    then show ?thesis using 2 by (cases "re_sub_ws cs") simp_all
  qed
qed

text \<open>Any non-empty run of white space between two texts collapses like one blank.\<close>

lemma re_sub_ws_sep:
  assumes "ws \<noteq> []" and "\<forall>c\<in>set ws. is_space c"
  shows "re_sub_ws (a @ ws @ b) = re_sub_ws (a @ '' '' @ b)"
proof (induction a rule: re_sub_ws.induct)
  case 1
  from assms obtain w ws' where ws: "ws = w # ws'" by (cases ws) auto
  with assms have "is_space w" and "\<forall>c\<in>set ws'. is_space c" by auto
  then show ?case using ws by (simp add: is_space_blank dropWhile_append2)
next
  case (2 c cs)
  show ?case
  proof (cases "is_space c")
    case False
    with 2 show ?thesis by simp
  next
    case True
    show ?thesis
    proof (cases "\<forall>x\<in>set cs. is_space x")
      case True
      with \<open>is_space c\<close> assms show ?thesis
        by (simp add: dropWhile_append2 is_space_blank)
    next
      case False
      then obtain x where "x \<in> set cs" "\<not> is_space x" by auto
      then have "\<And>ys. dropWhile is_space (cs @ ys) = dropWhile is_space cs @ ys"
        by (simp add: dropWhile_append1)
      with \<open>is_space c\<close> 2 show ?thesis by simp
    qed
  qed
qed

lemma re_sub_ws_join_sep:
  assumes "ws \<noteq> []" and "\<forall>c\<in>set ws. is_space c"
  shows "re_sub_ws (pre @ join ws ps) = re_sub_ws (pre @ join '' '' ps)"
proof (induction ps arbitrary: pre rule: induct_list012)
  case (3 p q ps)
  have "re_sub_ws (pre @ join ws (p # q # ps)) = re_sub_ws ((pre @ p) @ ws @ join ws (q # ps))"
    by simp
  also have "\<dots> = re_sub_ws ((pre @ p) @ '' '' @ join ws (q # ps))"
    using assms by (rule re_sub_ws_sep)
  also have "\<dots> = re_sub_ws ((pre @ p @ '' '') @ join ws (q # ps))"
    by simp
  also have "\<dots> = re_sub_ws ((pre @ p @ '' '') @ join '' '' (q # ps))"
    by (rule "3.IH"(2))
  finally show ?case by simp
qed simp_all

lemma blob_of_parts_single_blank:
  "blob_of_parts parts =
     lower (re_sub_ws (join '' '' (map strip (filter (\<lambda>p. p \<noteq> []) parts))))"
proof -
  have "\<forall>c\<in>set '' \<newline> ''. is_space c" by (simp add: is_space_def)
  then show ?thesis
    unfolding blob_of_parts_def using re_sub_ws_join_sep [of "'' \<newline> ''" "[]"] by simp
qed

lemma blob_no_upper: "\<forall>c\<in>set (blob_of_parts parts). \<not> is_upper_below_256 c"
  by (simp add: blob_of_parts_def lower_def not_upper_lower_char)

lemma lower_char_idem: "lower_char (lower_char c) = lower_char c"
  using not_upper_lower_char [of c] by (simp add: lower_char_def [of "lower_char c"])

lemma lower_idem: "lower (lower s) = lower s"
  by (simp add: lower_def lower_char_idem)

lemma blob_lower_fixed: "lower (blob_of_parts parts) = blob_of_parts parts"
  by (simp add: blob_of_parts_def lower_idem)

lemma blob_no_ws_run: "no_ws_run (blob_of_parts parts)"
  by (simp add: blob_of_parts_def no_ws_run_lower no_ws_run_re_sub_ws)

text \<open>
  Claim C7, as the specification states it, fails: the text blob is not the lower-case,
  white-space-collapsed join of the non-empty parts, because the code strips every part
  after it has chosen the non-empty ones. For the title \<open>'' ''\<close> and the description
  \<open>''A ''\<close> the code returns \<open>'' a''\<close>, the formula \<open>'' a ''\<close>.
\<close>

theorem text_blob_spec_formula_counterexample:
  "to_text_blob (Some '' '') (Some ''A '') None None None None None = '' a''
   \<and> spec_text_blob ['' '', ''A '', [], [], [], [], []] = '' a ''
   \<and> to_text_blob (Some '' '') (Some ''A '') None None None None None
       \<noteq> spec_text_blob ['' '', ''A '', [], [], [], [], []]"
  by code_simp

text \<open>
  Claim C7, amended: for every title, description, tags, fields, project, owner and context
  sentence, the text blob is \<^verbatim>\<open>lower()\<close> of the white-space-collapsed join, with one blank
  between parts, of the parts that are non-empty, each stripped of leading and trailing
  white space, in that order; it is equal to its own \<^verbatim>\<open>lower()\<close>, has none of the
  upper-case letters below code point 256 and no two consecutive white-space characters;
  and \<^verbatim>\<open>_create_text_blob\<close> is \<^verbatim>\<open>to_text_blob\<close> without a context sentence. Being a
  function of its arguments, the blob is the same for the same input. The strings are those
  of the model, of code points below 256.
\<close>

theorem text_blob_normalized:
  "to_text_blob t d tgs flds p ow ctx =
     lower (re_sub_ws (join '' '' (map strip (filter (\<lambda>p. p \<noteq> [])
       [or_empty t, or_empty d, join '' '' (or_empty tgs), join '' '' (or_empty flds),
        or_empty p, or_empty ow, or_empty ctx]))))
   \<and> lower (to_text_blob t d tgs flds p ow ctx) = to_text_blob t d tgs flds p ow ctx
   \<and> (\<forall>c\<in>set (to_text_blob t d tgs flds p ow ctx). \<not> is_upper_below_256 c)
   \<and> no_ws_run (to_text_blob t d tgs flds p ow ctx)
   \<and> create_text_blob t d tgs flds p ow = to_text_blob t d tgs flds p ow None"
proof (intro conjI)
  show "lower (to_text_blob t d tgs flds p ow ctx) = to_text_blob t d tgs flds p ow ctx"
    unfolding to_text_blob_def by (rule blob_lower_fixed)
  show "to_text_blob t d tgs flds p ow ctx =
     lower (re_sub_ws (join '' '' (map strip (filter (\<lambda>p. p \<noteq> [])
       [or_empty t, or_empty d, join '' '' (or_empty tgs), join '' '' (or_empty flds),
        or_empty p, or_empty ow, or_empty ctx]))))"
    unfolding to_text_blob_def by (rule blob_of_parts_single_blank)
  show "\<forall>c\<in>set (to_text_blob t d tgs flds p ow ctx). \<not> is_upper_below_256 c"
    unfolding to_text_blob_def by (rule blob_no_upper)
  show "no_ws_run (to_text_blob t d tgs flds p ow ctx)"
    unfolding to_text_blob_def by (rule blob_no_ws_run)
  show "create_text_blob t d tgs flds p ow = to_text_blob t d tgs flds p ow None"
    by (simp add: create_text_blob_def to_text_blob_def blob_of_parts_def or_empty_def)
qed

theorem text_blob_normalized_witness:
  "to_text_blob (Some ''Weekly  Sales'') (Some '' Q1\<newline>Report '') (Some [''Finance'', ''KPI''])
     None (Some ''Ops'') None (Some ''workbook Weekly  Sales'')
     = ''weekly sales q1 report finance kpi ops workbook weekly sales''
   \<and> lower (to_text_blob (Some ''Weekly  Sales'') (Some '' Q1\<newline>Report '')
         (Some [''Finance'', ''KPI'']) None (Some ''Ops'') None (Some ''workbook Weekly  Sales''))
       = ''weekly sales q1 report finance kpi ops workbook weekly sales''
   \<and> list_all (\<lambda>c. \<not> is_upper_below_256 c)
       (to_text_blob (Some ''Weekly  Sales'') (Some '' Q1\<newline>Report '')
         (Some [''Finance'', ''KPI'']) None (Some ''Ops'') None (Some ''workbook Weekly  Sales''))
   \<and> no_ws_run (to_text_blob (Some ''Weekly  Sales'') (Some '' Q1\<newline>Report '')
         (Some [''Finance'', ''KPI'']) None (Some ''Ops'') None (Some ''workbook Weekly  Sales''))"
proof -
  note inst = text_blob_normalized [of "Some ''Weekly  Sales''" "Some '' Q1\<newline>Report ''"
       "Some [''Finance'', ''KPI'']" None "Some ''Ops''" None "Some ''workbook Weekly  Sales''"]
  have computed: "to_text_blob (Some ''Weekly  Sales'') (Some '' Q1\<newline>Report '')
     (Some [''Finance'', ''KPI'']) None (Some ''Ops'') None (Some ''workbook Weekly  Sales'')
     = ''weekly sales q1 report finance kpi ops workbook weekly sales''"
    by code_simp
  from inst have "\<forall>c\<in>set (to_text_blob (Some ''Weekly  Sales'') (Some '' Q1\<newline>Report '')
         (Some [''Finance'', ''KPI'']) None (Some ''Ops'') None (Some ''workbook Weekly  Sales'')).
        \<not> is_upper_below_256 c"
    by blast
  then have upper: "list_all (\<lambda>c. \<not> is_upper_below_256 c)
       (to_text_blob (Some ''Weekly  Sales'') (Some '' Q1\<newline>Report '')
         (Some [''Finance'', ''KPI'']) None (Some ''Ops'') None (Some ''workbook Weekly  Sales''))"
    by (simp only: list_all_iff)
  from inst have run: "no_ws_run (to_text_blob (Some ''Weekly  Sales'') (Some '' Q1\<newline>Report '')
         (Some [''Finance'', ''KPI'']) None (Some ''Ops'') None (Some ''workbook Weekly  Sales''))"
    by blast
  from inst have "lower (to_text_blob (Some ''Weekly  Sales'') (Some '' Q1\<newline>Report '')
         (Some [''Finance'', ''KPI'']) None (Some ''Ops'') None (Some ''workbook Weekly  Sales''))
       = to_text_blob (Some ''Weekly  Sales'') (Some '' Q1\<newline>Report '')
         (Some [''Finance'', ''KPI'']) None (Some ''Ops'') None (Some ''workbook Weekly  Sales'')"
    by blast
  then have fixed: "lower (to_text_blob (Some ''Weekly  Sales'') (Some '' Q1\<newline>Report '')
         (Some [''Finance'', ''KPI'']) None (Some ''Ops'') None (Some ''workbook Weekly  Sales''))
       = ''weekly sales q1 report finance kpi ops workbook weekly sales''"
    using computed by (simp only:)
  from computed fixed upper run show ?thesis by blast
qed

subsection \<open>The quality gate\<close>

lemma concat_map_enumerate_Nil:
  assumes "\<And>i r. (f (i, r) = []) = P r"
  shows "(concat (map f (enumerate n records)) = []) = (\<forall>r\<in>set records. P r)"
proof -
  have "(concat (map f (enumerate n records)) = []) = (\<forall>ir\<in>set (enumerate n records). P (snd ir))"
    using assms by (auto simp: case_prod_beta)
  also have "\<dots> = (\<forall>r\<in>snd ` set (enumerate n records). P r)" by blast
  also have "snd ` set (enumerate n records) = set records"
    by (metis map_snd_enumerate set_map)
  finally show ?thesis .
qed

lemma check_site_isolation_iff:
  "fst (check_site_isolation records qc) =
     (\<forall>r\<in>set records. truthy (site_id r) \<and> site_id r = Some (checker_site_id qc))"
proof -
  have "(concat (map (site_isolation_issue (checker_site_id qc)) (enumerate 0 records)) = [])
        = (\<forall>r\<in>set records. truthy (site_id r) \<and> site_id r = Some (checker_site_id qc))"
    by (rule concat_map_enumerate_Nil) (simp add: site_isolation_issue_def)
  moreover have "fst (check_site_isolation records qc)
      = (concat (map (site_isolation_issue (checker_site_id qc)) (enumerate 0 records)) = [])"
    by (simp add: check_site_isolation_def Let_def)
  ultimately show ?thesis by (simp only:)
qed

lemma check_site_isolation_site: "checker_site_id (snd (check_site_isolation records qc)) = checker_site_id qc"
  by (simp add: check_site_isolation_def Let_def)

lemma check_required_fields_iff:
  "fst (check_required_fields records qc) =
     (\<forall>r\<in>set records. truthy (object_id r) \<and> truthy (title r) \<and> truthy (object_type r)
        \<and> truthy (text_blob r))"
proof -
  have "(concat (map required_field_issues (enumerate 0 records)) = [])
        = (\<forall>r\<in>set records. truthy (object_id r) \<and> truthy (title r) \<and> truthy (object_type r)
        \<and> truthy (text_blob r))"
    by (rule concat_map_enumerate_Nil) (simp add: required_field_issues_def required_fields_def)
  moreover have "fst (check_required_fields records qc)
      = (concat (map required_field_issues (enumerate 0 records)) = [])"
    by (simp add: check_required_fields_def Let_def)
  ultimately show ?thesis by (simp only:)
qed

lemma run_all_checks_overall:
  "overall_quality (fst (run_all_checks records qc)) =
     (fst (check_site_isolation records qc)
      \<and> fst (check_required_fields records (snd (check_site_isolation records qc))))"
  by (simp add: run_all_checks_def Let_def split: prod.splits)

lemma run_all_checks_fields:
  "site_isolation (fst (run_all_checks records qc)) = fst (check_site_isolation records qc)"
  "required_fields_ok (fst (run_all_checks records qc)) =
     fst (check_required_fields records (snd (check_site_isolation records qc)))"
  by (simp_all add: run_all_checks_def Let_def split: prod.splits)

lemma overall_quality_iff:
  "overall_quality (fst (run_all_checks records qc)) =
     (\<forall>r\<in>set records. \<not> blocking_failure (checker_site_id qc) r)"
  unfolding run_all_checks_overall check_site_isolation_iff check_required_fields_iff
    blocking_failure_def
  by blast


lemma blocking_failure_advisory:
  "truthy tb = truthy (text_blob r) \<Longrightarrow>
   blocking_failure sid (r\<lparr>description := d, url := u, deep_link_url := l, text_blob := tb\<rparr>)
     = blocking_failure sid r"
  by (simp add: blocking_failure_def)

text \<open>
  Claim C2: for every batch, \<^verbatim>\<open>overall_quality\<close> is the conjunction of the two blocking
  checks (site isolation, required fields) and of nothing else: it holds exactly when no
  record has a blocking failure; adding records never turns it from false to true; and
  changing what only the advisory checks read (description, URL, deep link) never changes
  it, so a batch without blocking failures passes whatever warnings remain.
\<close>

theorem quality_gate_overall:
  "overall_quality (fst (run_all_checks records qc))
     = (site_isolation (fst (run_all_checks records qc))
        \<and> required_fields_ok (fst (run_all_checks records qc)))
   \<and> overall_quality (fst (run_all_checks records qc))
     = (\<forall>r\<in>set records. \<not> blocking_failure (checker_site_id qc) r)
   \<and> (\<not> overall_quality (fst (run_all_checks records qc))
        \<longrightarrow> \<not> overall_quality (fst (run_all_checks (records @ extra) qc)))
   \<and> overall_quality (fst (run_all_checks
          (map (\<lambda>r. r\<lparr>description := d r, url := u r, deep_link_url := l r\<rparr>) records) qc))
     = overall_quality (fst (run_all_checks records qc))"
proof (intro conjI)
  show "overall_quality (fst (run_all_checks records qc))
     = (site_isolation (fst (run_all_checks records qc))
        \<and> required_fields_ok (fst (run_all_checks records qc)))"
    by (simp only: run_all_checks_overall run_all_checks_fields)
  show "overall_quality (fst (run_all_checks records qc))
     = (\<forall>r\<in>set records. \<not> blocking_failure (checker_site_id qc) r)"
    by (rule overall_quality_iff)
  show "\<not> overall_quality (fst (run_all_checks records qc))
        \<longrightarrow> \<not> overall_quality (fst (run_all_checks (records @ extra) qc))"
    by (auto simp: overall_quality_iff)
  show "overall_quality (fst (run_all_checks
          (map (\<lambda>r. r\<lparr>description := d r, url := u r, deep_link_url := l r\<rparr>) records) qc))
     = overall_quality (fst (run_all_checks records qc))"
    by (simp add: overall_quality_iff blocking_failure_def)
qed

theorem quality_gate_overall_witness:
  "overall_quality (fst (run_all_checks [example_record] example_checker))
   \<and> result_warnings (fst (run_all_checks [example_record] example_checker))
      = [HighWithoutDescriptions 1 1, MalformedUrls 1, ManyWithoutDeepLinks 1 1,
         ManyShortTextBlobs 1 1]
   \<and> \<not> overall_quality (fst (run_all_checks
          [example_record, example_record\<lparr>site_id := Some ''s2''\<rparr>] example_checker))"
proof -
  note inst = quality_gate_overall [of "[example_record]" example_checker
      "[example_record\<lparr>site_id := Some ''s2''\<rparr>]"]
  note inst2 = quality_gate_overall [of "[example_record, example_record\<lparr>site_id := Some ''s2''\<rparr>]"
      example_checker]
  have sid: "checker_site_id example_checker = ''s1''"
    by (simp add: example_checker_def QualityChecker_def)
  have ok: "\<not> blocking_failure ''s1'' example_record"
    by (simp add: blocking_failure_def example_record_def truthy_def)
  have bad: "blocking_failure ''s1'' (example_record\<lparr>site_id := Some ''s2''\<rparr>)"
    by (simp add: blocking_failure_def example_record_def truthy_def)
  from ok sid have a: "overall_quality (fst (run_all_checks [example_record] example_checker))"
    by (simp add: inst [THEN conjunct2, THEN conjunct1])
  have b: "result_warnings (fst (run_all_checks [example_record] example_checker))
      = [HighWithoutDescriptions 1 1, MalformedUrls 1, ManyWithoutDeepLinks 1 1,
         ManyShortTextBlobs 1 1]"
    by code_simp
  from bad sid have c: "\<not> overall_quality (fst (run_all_checks
          [example_record, example_record\<lparr>site_id := Some ''s2''\<rparr>] example_checker))"
    by (simp add: inst2 [THEN conjunct2, THEN conjunct1])
  from a b c show ?thesis by blast
qed

subsection \<open>Null values out of the normalizer\<close>

text \<open>
  Claim C9 at a workbook without a project and with an unnamed owner: the REST path
  (\<^verbatim>\<open>prepare_objects_for_indexing\<close>), the one that feeds the quality gate and the store,
  yields \<^verbatim>\<open>None\<close> for \<^verbatim>\<open>project_name\<close> and \<^verbatim>\<open>owner\<close>, where the GraphQL path
  (\<^verbatim>\<open>build_workbook_record\<close>) yields the empty string for both.
\<close>

theorem prepare_workbook_null_project_owner:
  "project_name (prepare_workbook ''s1'' example_rest_workbook) = None
   \<and> owner (prepare_workbook ''s1'' example_rest_workbook) = None
   \<and> title (prepare_workbook ''s1'' example_rest_workbook) = Some ''Sales''
   \<and> description (prepare_workbook ''s1'' example_rest_workbook) = Some []
   \<and> tags (prepare_workbook ''s1'' example_rest_workbook) = Some []
   \<and> (case build_workbook_record ''s1'' example_gql_workbook of
        Inl e \<Rightarrow> None | Inr r \<Rightarrow> Some (project_name r, owner r)) = Some (Some [], Some [])"
  by (simp add: prepare_workbook_def prepare_object_def nested_name_def example_rest_workbook_def
      example_gql_workbook_def build_workbook_record_def get_def get_or_def truthy_def
      dict_get_def dict_get_or_def or_empty_def rest_tags_def Let_def)

subsection \<open>The store\<close>

lemma key_of_do_update: "key_of (do_update now p r) = key_of r"
  by (simp add: key_of_def do_update_def)

lemma key_of_inserted_row: "key_of (inserted_row i now p :: 'e row) = param_key p"
  by (simp add: key_of_def inserted_row_def param_key_def)

lemma keys_after_update:
  "map key_of (map (\<lambda>r. if key_of r = k then do_update now p r else r) rs) = map key_of rs"
  by (induction rs) (simp_all add: key_of_do_update)

lemma execute_upsert_unique:
  assumes "unique_keys s" and "execute_upsert now p s = Inr s'"
  shows "unique_keys s'"
proof (cases "param_key p \<in> set (map key_of (rows s))")
  case True
  with assms(2) have "rows s' = map (\<lambda>r. if key_of r = param_key p then do_update now p r else r) (rows s)"
    by (auto simp: execute_upsert_def split: if_splits)
  then have "map key_of (rows s') = map key_of (rows s)"
    by (simp only: keys_after_update)
  with assms(1) show ?thesis by (simp add: unique_keys_def)
next
  case False
  with assms(2) have "rows s' = rows s @ [inserted_row (next_id s) now p]"
    by (auto simp: execute_upsert_def split: if_splits)
  with assms(1) False show ?thesis
    by (simp add: unique_keys_def key_of_inserted_row)
qed

lemma execute_upsert_reachable:
  "execute_upsert now p s = Inr s' \<Longrightarrow> reachable s' = reachable s"
  by (auto simp: execute_upsert_def split: if_splits)

lemma upsert_loop_unique:
  "unique_keys s \<Longrightarrow> unique_keys (fst (upsert_loop now rs s n))"
proof (induction rs arbitrary: s n)
  case Nil
  then show ?case by simp
next
  case (Cons r rs)
  show ?case
  proof (cases "execute_upsert now (record_data r) s")
    case (Inl e)
    with Cons show ?thesis by simp
  next
    case (Inr s')
    with Cons.prems have "unique_keys s'" by (auto dest: execute_upsert_unique)
    with Cons.IH Inr show ?thesis by simp
  qed
qed

lemma upsert_records_unique:
  assumes "unique_keys s"
  shows "unique_keys (snd (upsert_records now rs s))"
proof (cases "rs = [] \<or> \<not> reachable s")
  case True
  with assms show ?thesis by (auto simp: upsert_records_def)
next
  case False
  then have "snd (upsert_records now rs s) = fst (upsert_loop now rs s 0)"
    by (simp add: upsert_records_def split: prod.splits)
  with assms show ?thesis by (simp add: upsert_loop_unique)
qed

lemma batch_loop_unique:
  "unique_keys s \<Longrightarrow> unique_keys (fst (batch_loop clock i bs s n))"
proof (induction bs arbitrary: s n i)
  case Nil
  then show ?case by simp
next
  case (Cons b bs)
  obtain res s' where step: "upsert_records (clock i) b s = (res, s')"
    by (cases "upsert_records (clock i) b s")
  with Cons.prems upsert_records_unique [of s "clock i" b] have "unique_keys s'" by simp
  with Cons.IH step show ?case by (cases res) simp_all
qed

lemma upsert_records_batch_unique:
  assumes "unique_keys s"
  shows "unique_keys (snd (upsert_records_batch clock rs bsz s))"
proof (cases "rs = [] \<or> bsz \<le> 0")
  case True
  with assms show ?thesis by (auto simp: upsert_records_batch_def)
next
  case False
  then have "snd (upsert_records_batch clock rs bsz s)
      = fst (batch_loop clock 0 (batches (nat bsz) rs) s 0)"
    by (simp add: upsert_records_batch_def split: prod.splits)
  with assms show ?thesis by (simp add: batch_loop_unique)
qed

lemma filter_key_single:
  "distinct (map f xs) \<Longrightarrow> k \<in> set (map f xs) \<Longrightarrow> \<exists>x. filter (\<lambda>r. f r = k) xs = [x]"
proof (induction xs)
  case Nil
  then show ?case by simp
next
  case (Cons a xs)
  show ?case
  proof (cases "f a = k")
    case True
    with Cons.prems have "k \<notin> f ` set xs" by auto
    then have "filter (\<lambda>r. f r = k) xs = []" by (auto simp: filter_empty_conv)
    with True show ?thesis by simp
  next
    case False
    with Cons show ?thesis by auto
  qed
qed

lemma filter_key_none: "k \<notin> set (map f xs) \<Longrightarrow> filter (\<lambda>r. f r = k) xs = []"
  by (auto simp: filter_empty_conv)

lemma rows_keyed_after_update:
  "filter (\<lambda>r. key_of r = k) (map (\<lambda>r. if key_of r = k then do_update now p r else r) rs)
     = map (do_update now p) (filter (\<lambda>r. key_of r = k) rs)"
  by (induction rs) (simp_all add: key_of_do_update)

text \<open>What one statement leaves under the key of its parameters.\<close>

lemma execute_upsert_row:
  assumes "unique_keys s" and "storable p"
  shows "\<exists>s' x. execute_upsert now p s = Inr s' \<and> rows_keyed (param_key p) s' = [x]
           \<and> x = (case rows_keyed (param_key p) s of
                    [] \<Rightarrow> inserted_row (next_id s) now p
                  | r # _ \<Rightarrow> do_update now p r)"
proof (cases "param_key p \<in> set (map key_of (rows s))")
  case True
  from assms(1) have "distinct (map key_of (rows s))" by (simp only: unique_keys_def)
  from this True have "\<exists>x. filter (\<lambda>r. key_of r = param_key p) (rows s) = [x]"
    by (rule filter_key_single)
  then obtain r where r: "rows_keyed (param_key p) s = [r]"
    by (auto simp only: rows_keyed_def)
  let ?s' = "s\<lparr>rows := map (\<lambda>r. if key_of r = param_key p then do_update now p r else r) (rows s)\<rparr>"
  have step: "execute_upsert now p s = Inr ?s'"
    using True assms(2) by (simp only: execute_upsert_def if_True if_False not_True_eq_False)
  have "rows_keyed (param_key p) ?s' = map (do_update now p) (rows_keyed (param_key p) s)"
    by (simp add: rows_keyed_def rows_keyed_after_update)
  with r have "rows_keyed (param_key p) ?s' = [do_update now p r]" by simp
  with step r show ?thesis by simp
next
  case False
  then have none: "rows_keyed (param_key p) s = []"
    unfolding rows_keyed_def by (rule filter_key_none)
  let ?s' = "s\<lparr>rows := rows s @ [inserted_row (next_id s) now p], next_id := Suc (next_id s)\<rparr>"
  have step: "execute_upsert now p s = Inr ?s'"
    using False assms(2) by (simp only: execute_upsert_def if_True if_False not_True_eq_False)
  have "rows_keyed (param_key p) ?s' = rows_keyed (param_key p) s @ [inserted_row (next_id s) now p]"
    by (simp add: rows_keyed_def key_of_inserted_row)
  with none have "rows_keyed (param_key p) ?s' = [inserted_row (next_id s) now p]" by simp
  with step none show ?thesis by simp
qed

lemma storable_record_data: "storable (record_data r) = storable r"
  by (simp add: storable_def record_data_def)

lemma param_key_record_data: "param_key (record_data r) = param_key r"
  by (simp add: param_key_def record_data_def)

lemma upsert_records_single:
  assumes "reachable s" and "execute_upsert now (record_data r) s = Inr s'"
  shows "upsert_records now [r] s = (Inr 1, s')"
  using assms by (simp add: upsert_records_def)


lemma upsert_loop_reachable: "reachable (fst (upsert_loop now rs s n)) = reachable s"
proof (induction rs arbitrary: s n)
  case Nil
  show ?case by simp
next
  case (Cons r rs)
  show ?case
    by (cases "execute_upsert now (record_data r) s")
       (simp_all add: Cons.IH execute_upsert_reachable)
qed

lemma upsert_records_reachable: "reachable (snd (upsert_records now rs s)) = reachable s"
  using upsert_loop_reachable [of now rs s 0]
  by (cases "rs = [] \<or> \<not> reachable s") (auto simp: upsert_records_def split: prod.splits)

lemma upsert_sequence_unique: "unique_keys s \<Longrightarrow> unique_keys (upsert_sequence calls s)"
proof (induction calls arbitrary: s)
  case Nil
  then show ?case by simp
next
  case (Cons c calls)
  obtain now rs where c: "c = (now, rs)" by (cases c)
  from Cons.prems have "unique_keys (snd (upsert_records now rs s))"
    by (rule upsert_records_unique)
  with Cons.IH c show ?case by simp
qed

lemma unique_keys_empty_store: "unique_keys empty_store"
  by (simp add: unique_keys_def empty_store_def)

text \<open>One call with one storable record on a store that can be reached.\<close>

lemma upsert_records_one_row:
  assumes "unique_keys s" and "reachable s" and "storable r"
  shows "\<exists>x. rows_keyed (param_key r) (snd (upsert_records now [r] s)) = [x]
           \<and> x = (case rows_keyed (param_key r) s of
                    [] \<Rightarrow> inserted_row (next_id s) now (record_data r)
                  | old # _ \<Rightarrow> do_update now (record_data r) old)"
proof -
  from assms(3) have "storable (record_data r)" by (simp only: storable_record_data)
  with assms(1) obtain s' x where
    step: "execute_upsert now (record_data r) s = Inr s'" and
    x: "rows_keyed (param_key (record_data r)) s' = [x]"
       "x = (case rows_keyed (param_key (record_data r)) s of
               [] \<Rightarrow> inserted_row (next_id s) now (record_data r)
             | old # _ \<Rightarrow> do_update now (record_data r) old)"
    using execute_upsert_row [of s "record_data r" now] by blast
  from assms(2) step have "upsert_records now [r] s = (Inr 1, s')"
    by (rule upsert_records_single)
  with x show ?thesis by (simp add: param_key_record_data)
qed

lemma written_values:
  assumes "x = (case old_rows of
                  [] \<Rightarrow> inserted_row i now (record_data r)
                | old # _ \<Rightarrow> do_update now (record_data r) old)"
  shows "row_title x = the (title r) \<and> row_description x = description r
     \<and> row_tags x = Some (or_empty (tags r)) \<and> row_fields x = Some (or_empty (fields' r))
     \<and> row_project_name x = project_name r \<and> row_owner x = owner r \<and> row_url x = url r
     \<and> row_text_blob x = the (text_blob r) \<and> updated_at x = now"
  using assms
  by (cases old_rows) (simp_all add: inserted_row_def do_update_def record_data_def)

text \<open>
  Claim C1: for every record the table can take and every store whose rows have distinct
  keys, upserting the record twice (the second call with the same key and any field
  values) leaves exactly one row under the key (site_id, object_type, object_id); every
  written column of that row holds the value of the second call, a null of the second call
  included, and \<^verbatim>\<open>updated_at\<close> is the time of the second call; and after any sequence
  of upserts, in one call, in several calls or in batches, the keys of the rows are still
  distinct.
\<close>

theorem upsert_idempotent_unique:
  assumes "unique_keys s" and "reachable s" and "storable r1" and "storable r2"
    and "param_key r1 = param_key r2"
  shows "(\<exists>x. rows_keyed (param_key r2)
                (snd (upsert_records t2 [r2] (snd (upsert_records t1 [r1] s)))) = [x]
            \<and> row_title x = the (title r2) \<and> row_description x = description r2
            \<and> row_tags x = Some (or_empty (tags r2)) \<and> row_fields x = Some (or_empty (fields' r2))
            \<and> row_project_name x = project_name r2 \<and> row_owner x = owner r2
            \<and> row_url x = url r2 \<and> row_text_blob x = the (text_blob r2) \<and> updated_at x = t2)
     \<and> unique_keys (snd (upsert_records t2 [r2] (snd (upsert_records t1 [r1] s))))
     \<and> unique_keys (upsert_sequence calls s)
     \<and> unique_keys (snd (upsert_records_batch clock records batch_size s))"
proof (intro conjI)
  let ?s1 = "snd (upsert_records t1 [r1] s)"
  from assms(1) have u1: "unique_keys ?s1" by (rule upsert_records_unique)
  from assms(2) have r1: "reachable ?s1" by (simp only: upsert_records_reachable)
  from u1 r1 assms(4) obtain x where
    x: "rows_keyed (param_key r2) (snd (upsert_records t2 [r2] ?s1)) = [x]"
       "x = (case rows_keyed (param_key r2) ?s1 of
               [] \<Rightarrow> inserted_row (next_id ?s1) t2 (record_data r2)
             | old # _ \<Rightarrow> do_update t2 (record_data r2) old)"
    using upsert_records_one_row [of ?s1 r2 t2] by blast
  from x(2) have "row_title x = the (title r2) \<and> row_description x = description r2
     \<and> row_tags x = Some (or_empty (tags r2)) \<and> row_fields x = Some (or_empty (fields' r2))
     \<and> row_project_name x = project_name r2 \<and> row_owner x = owner r2 \<and> row_url x = url r2
     \<and> row_text_blob x = the (text_blob r2) \<and> updated_at x = t2"
    by (rule written_values)
  with x(1) show "\<exists>x. rows_keyed (param_key r2)
                (snd (upsert_records t2 [r2] (snd (upsert_records t1 [r1] s)))) = [x]
            \<and> row_title x = the (title r2) \<and> row_description x = description r2
            \<and> row_tags x = Some (or_empty (tags r2)) \<and> row_fields x = Some (or_empty (fields' r2))
            \<and> row_project_name x = project_name r2 \<and> row_owner x = owner r2
            \<and> row_url x = url r2 \<and> row_text_blob x = the (text_blob r2) \<and> updated_at x = t2"
    by blast
  from u1 show "unique_keys (snd (upsert_records t2 [r2] ?s1))" by (rule upsert_records_unique)
  from assms(1) show "unique_keys (upsert_sequence calls s)" by (rule upsert_sequence_unique)
  from assms(1) show "unique_keys (snd (upsert_records_batch clock records batch_size s))"
    by (rule upsert_records_batch_unique)
qed

theorem upsert_idempotent_unique_witness:
  "unique_keys (empty_store :: nat store) \<and> reachable (empty_store :: nat store)
   \<and> storable example_record
   \<and> storable (example_record\<lparr>title := Some ''Sales 2'', description := Some ''by region''\<rparr>)
   \<and> param_key example_record
       = param_key (example_record\<lparr>title := Some ''Sales 2'', description := Some ''by region''\<rparr>)
   \<and> (\<exists>x. rows_keyed (''s1'', ''workbook'', ''wb-1'')
             (snd (upsert_records 20
                [example_record\<lparr>title := Some ''Sales 2'', description := Some ''by region''\<rparr>]
                (snd (upsert_records 10 [example_record] (empty_store :: nat store))))) = [x]
          \<and> row_title x = ''Sales 2'' \<and> row_description x = Some ''by region''
          \<and> updated_at x = 20)
   \<and> length (rows (snd (upsert_records 20
                [example_record\<lparr>title := Some ''Sales 2'', description := Some ''by region''\<rparr>]
                (snd (upsert_records 10 [example_record] (empty_store :: nat store)))))) = 1"
proof -
  have h1: "unique_keys (empty_store :: nat store)" by (rule unique_keys_empty_store)
  have h2: "reachable (empty_store :: nat store)" by (simp add: empty_store_def)
  have h3: "storable example_record" by (simp add: storable_def example_record_def)
  have h4: "storable (example_record\<lparr>title := Some ''Sales 2'', description := Some ''by region''\<rparr>)"
    by (simp add: storable_def example_record_def)
  have h5: "param_key example_record
       = param_key (example_record\<lparr>title := Some ''Sales 2'', description := Some ''by region''\<rparr>)"
    by (simp add: param_key_def)
  have k: "param_key (example_record\<lparr>title := Some ''Sales 2'', description := Some ''by region''\<rparr>)
       = (''s1'', ''workbook'', ''wb-1'')"
    by (simp add: param_key_def example_record_def)
  note inst = upsert_idempotent_unique [OF h1 h2 h3 h4 h5, of 20 10, THEN conjunct1]
  from inst have ex: "\<exists>x. rows_keyed (''s1'', ''workbook'', ''wb-1'')
             (snd (upsert_records 20
                [example_record\<lparr>title := Some ''Sales 2'', description := Some ''by region''\<rparr>]
                (snd (upsert_records 10 [example_record] (empty_store :: nat store))))) = [x]
          \<and> row_title x = ''Sales 2'' \<and> row_description x = Some ''by region''
          \<and> updated_at x = 20"
    unfolding k by auto
  have len: "length (rows (snd (upsert_records 20
                [example_record\<lparr>title := Some ''Sales 2'', description := Some ''by region''\<rparr>]
                (snd (upsert_records 10 [example_record] (empty_store :: nat store)))))) = 1"
    by code_simp
  from h1 h2 h3 h4 h5 ex len show ?thesis by blast
qed


lemma get_unembedded_records_subset:
  "get_unembedded_records limit s = Inr found \<Longrightarrow> x \<in> set found \<Longrightarrow> embedding x = None"
proof -
  assume a: "get_unembedded_records limit s = Inr found" and b: "x \<in> set found"
  let ?all = "rev (sort_key updated_at (rev (filter (\<lambda>r. embedding r = None) (rows s))))"
  have all: "\<And>y. y \<in> set ?all \<Longrightarrow> embedding y = None" by auto
  from a have "found = ?all \<or> (\<exists>n. found = take n ?all)"
    by (auto simp: get_unembedded_records_def Let_def split: if_splits option.splits)
  with b have "x \<in> set ?all" by (auto dest: in_set_takeD)
  then show ?thesis by (rule all)
qed

text \<open>
  Claim C5, as the specification states it, fails: the statement of the Upsert Engine does
  not touch the embedding. The stored row of the example has an embedding; the upsert of
  the same record with another text blob changes the text blob, keeps the embedding, and
  the Embedding Generator finds nothing to do.
\<close>

theorem upsert_keeps_embedding_counterexample:
  "rows embedded_store
     = [\<lparr> row_id = 1, row_site_id = ''s1'', row_object_type = ''workbook'',
          row_object_id = ''wb-1'', row_title = ''Sales'', row_description = None,
          row_tags = Some [], row_fields = Some [], row_project_name = Some ''Finance'',
          row_owner = None, row_url = Some ''Sales'', row_text_blob = ''sales finance'',
          embedding = Some 7, updated_at = 10 \<rparr>]
   \<and> upsert_records 20 [example_record\<lparr>text_blob := Some ''sales finance emea''\<rparr>] embedded_store
     = (Inr 1,
        \<lparr> reachable = True,
          rows = [\<lparr> row_id = 1, row_site_id = ''s1'', row_object_type = ''workbook'',
                    row_object_id = ''wb-1'', row_title = ''Sales'', row_description = None,
                    row_tags = Some [], row_fields = Some [], row_project_name = Some ''Finance'',
                    row_owner = None, row_url = Some ''Sales'',
                    row_text_blob = ''sales finance emea'',
                    embedding = Some 7, updated_at = 20 \<rparr>],
          next_id = 2 \<rparr>)
   \<and> get_unembedded_records None
        (snd (upsert_records 20 [example_record\<lparr>text_blob := Some ''sales finance emea''\<rparr>]
                embedded_store)) = Inr []"
  by code_simp

text \<open>
  Claim C5, amended: for every stored row, the conflict overwrite of the Upsert Engine
  writes the text blob of the record and leaves the embedding of the row as it was; a row
  that had an embedding therefore keeps it, whatever the new text blob, and is not among
  the rows the Embedding Generator selects.
\<close>

theorem upsert_keeps_embedding:
  assumes "unique_keys s" and "reachable s" and "storable p"
    and "rows_keyed (param_key p) s = [r]"
  shows "\<exists>x. rows_keyed (param_key p) (snd (upsert_records now [p] s)) = [x]
           \<and> row_text_blob x = the (text_blob p)
           \<and> embedding x = embedding r
           \<and> (embedding r \<noteq> None \<longrightarrow>
                (\<forall>found. get_unembedded_records limit (snd (upsert_records now [p] s)) = Inr found
                   \<longrightarrow> x \<notin> set found))"
proof -
  from assms(1-3) obtain x where
    x: "rows_keyed (param_key p) (snd (upsert_records now [p] s)) = [x]"
       "x = (case rows_keyed (param_key p) s of
               [] \<Rightarrow> inserted_row (next_id s) now (record_data p)
             | old # _ \<Rightarrow> do_update now (record_data p) old)"
    using upsert_records_one_row [of s p now] by blast
  from x(2) assms(4) have upd: "x = do_update now (record_data p) r" by simp
  then have tb: "row_text_blob x = the (text_blob p)" and emb: "embedding x = embedding r"
    by (simp_all add: do_update_def record_data_def)
  from emb have "embedding r \<noteq> None \<longrightarrow>
      (\<forall>found. get_unembedded_records limit (snd (upsert_records now [p] s)) = Inr found
                   \<longrightarrow> x \<notin> set found)"
    using get_unembedded_records_subset by fastforce
  with x(1) tb emb show ?thesis by blast
qed

theorem upsert_keeps_embedding_witness:
  "unique_keys embedded_store \<and> reachable embedded_store
   \<and> storable (example_record\<lparr>text_blob := Some ''sales finance emea''\<rparr>)
   \<and> rows_keyed (param_key (example_record\<lparr>text_blob := Some ''sales finance emea''\<rparr>))
        embedded_store = [hd (rows embedded_store)]
   \<and> embedding (hd (rows embedded_store)) = Some 7
   \<and> (\<exists>x. rows_keyed (param_key (example_record\<lparr>text_blob := Some ''sales finance emea''\<rparr>))
             (snd (upsert_records 20 [example_record\<lparr>text_blob := Some ''sales finance emea''\<rparr>]
                     embedded_store)) = [x]
          \<and> row_text_blob x = ''sales finance emea'' \<and> embedding x = Some 7)"
proof -
  have h1: "unique_keys embedded_store" by code_simp
  have h2: "reachable embedded_store" by code_simp
  have h3: "storable (example_record\<lparr>text_blob := Some ''sales finance emea''\<rparr>)" by code_simp
  have h4: "rows_keyed (param_key (example_record\<lparr>text_blob := Some ''sales finance emea''\<rparr>))
        embedded_store = [hd (rows embedded_store)]" by code_simp
  have h5: "embedding (hd (rows embedded_store)) = Some 7" by code_simp
  from upsert_keeps_embedding [OF h1 h2 h3 h4, of 20 None] h5
  have "\<exists>x. rows_keyed (param_key (example_record\<lparr>text_blob := Some ''sales finance emea''\<rparr>))
             (snd (upsert_records 20 [example_record\<lparr>text_blob := Some ''sales finance emea''\<rparr>]
                     embedded_store)) = [x]
          \<and> row_text_blob x = ''sales finance emea'' \<and> embedding x = Some 7"
    by auto
  with h1 h2 h3 h4 h5 show ?thesis by blast
qed

subsection \<open>Pagination and the platform client\<close>

lemma page_of_Nil:
  assumes "0 < P" and "(page - 1) * P \<le> length xs"
  shows "(page_of P xs page = []) = (length xs = (page - 1) * P)"
  using assms by (auto simp: page_of_def)

lemma length_page_of:
  "length (page_of P xs page) = min P (length xs - (page - 1) * P)"
  by (simp add: page_of_def min.commute)

lemma div_eq_pred:
  assumes "0 < (P::nat)" and "(page - 1) * P \<le> L" and "L - (page - 1) * P < P" and "1 \<le> page"
  shows "L div P = page - 1"
proof -
  define r where "r = L - (page - 1) * P"
  have L: "L = (page - 1) * P + r" using assms(2) by (simp add: r_def)
  have "r < P" using assms(3) by (simp add: r_def)
  then have "((page - 1) * P + r) div P = page - 1" using assms(1) by simp
  then show ?thesis using L by simp
qed

lemma page_le_div:
  assumes "0 < (P::nat)" and "page * P \<le> L"
  shows "page \<le> L div P"
  using assms by (simp add: less_eq_div_iff_mult_less_eq)

lemma page_of_next:
  assumes "1 \<le> page"
  shows "page_of P xs page @ drop (page * P) xs = drop ((page - 1) * P) xs"
proof -
  have "P + (page - 1) * P = page * P" using assms by (cases page) simp_all
  then have "drop (page * P) xs = drop P (drop ((page - 1) * P) xs)"
    by (simp only: drop_drop)
  then show ?thesis
    unfolding page_of_def by (simp only: append_take_drop_id)
qed

lemma paginate_loop_uncapped:
  assumes "0 < P" and "cap = None \<or> cap = Some 0"
  shows "1 \<le> page \<Longrightarrow> (page - 1) * P \<le> length xs \<Longrightarrow>
     paginate_loop (PaginationHelper (int P) cap) (paged_source xs) page acc req
       = Some (acc @ drop ((page - 1) * P) xs, req @ [page ..< length xs div P + 2])"
proof (induction "length xs - (page - 1) * P" arbitrary: page acc req rule: less_induct)
  case less
  let ?self = "PaginationHelper (int P) cap"
  let ?results = "page_of P xs page"
  have nocap: "\<not> cap_reached (max_pages ?self) page"
    using assms(2) by (auto simp: cap_reached_def PaginationHelper_def)
  have size: "page_size ?self = int P" by (simp add: PaginationHelper_def)
  have fetch: "paged_source xs page (page_size ?self) = Inr ?results"
    "paged_source xs page (int P) = Inr ?results"
    by (simp_all add: paged_source_def size)
  consider (empty) "?results = []"
    | (short) "?results \<noteq> []" "length ?results < P"
    | (full) "?results \<noteq> []" "\<not> length ?results < P"
    by blast
  then show ?case
  proof cases
    case empty
    then have len: "length xs = (page - 1) * P"
      using page_of_Nil [OF assms(1) less.prems(2)] by simp
    then have d: "length xs div P = page - 1" using assms(1) by simp
    have "paginate_loop ?self (paged_source xs) page acc req = Some (acc, req @ [page])"
      by (subst paginate_loop.simps) (simp add: fetch empty del: One_nat_def)
    moreover have "drop ((page - 1) * P) xs = []" using len by simp
    moreover have "[page ..< length xs div P + 2] = [page]"
      using d less.prems(1) by (simp add: upt_rec)
    ultimately show ?thesis by simp
  next
    case short
    then have lt: "length xs - (page - 1) * P < P"
      by (simp add: length_page_of)
    have d: "length xs div P = page - 1"
      using div_eq_pred [OF assms(1) less.prems(2) lt less.prems(1)] .
    have "paginate_loop ?self (paged_source xs) page acc req
            = Some (acc @ ?results, req @ [page])"
      by (subst paginate_loop.simps) (simp add: fetch short size del: One_nat_def)
    moreover have "?results = drop ((page - 1) * P) xs"
      using lt by (simp add: page_of_def)
    moreover have "[page ..< length xs div P + 2] = [page]"
      using d less.prems(1) by (simp add: upt_rec)
    ultimately show ?thesis by simp
  next
    case full
    then have ge: "P \<le> length xs - (page - 1) * P"
      by (simp add: length_page_of)
    have eq: "(page - 1) * P + P = page * P"
      using less.prems(1) by (cases page) simp_all
    have nxt: "page * P \<le> length xs" using ge less.prems(2) eq by linarith
    have step: "paginate_loop ?self (paged_source xs) page acc req
            = paginate_loop ?self (paged_source xs) (page + 1) (acc @ ?results) (req @ [page])"
      by (subst paginate_loop.simps) (simp add: fetch full size nocap del: One_nat_def)
    have smaller: "length xs - (page + 1 - 1) * P < length xs - (page - 1) * P"
      using ge assms(1) eq by simp
    have ih: "paginate_loop ?self (paged_source xs) (page + 1) (acc @ ?results) (req @ [page])
        = Some ((acc @ ?results) @ drop ((page + 1 - 1) * P) xs,
                (req @ [page]) @ [page + 1 ..< length xs div P + 2])"
      using less.hyps [OF smaller] nxt by simp
    have items: "?results @ drop ((page + 1 - 1) * P) xs = drop ((page - 1) * P) xs"
      using page_of_next [OF less.prems(1)] by simp
    have "page \<le> length xs div P" using page_le_div [OF assms(1) nxt] .
    then have pages: "[page] @ [page + 1 ..< length xs div P + 2] = [page ..< length xs div P + 2]"
      by (simp add: upt_rec [of page])
    show ?thesis
      unfolding step ih using items pages by simp
  qed
qed


lemma paginate_loop_capped:
  assumes "0 < P" and "0 < M"
  shows "1 \<le> page \<Longrightarrow> page \<le> M \<Longrightarrow> (page - 1) * P \<le> length xs \<Longrightarrow>
     paginate_loop (PaginationHelper (int P) (Some (int M))) (paged_source xs) page acc req
       = Some (acc @ take ((M + 1 - page) * P) (drop ((page - 1) * P) xs),
               req @ [page ..< min M (length xs div P + 1) + 1])"
proof (induction "length xs - (page - 1) * P" arbitrary: page acc req rule: less_induct)
  case less
  let ?self = "PaginationHelper (int P) (Some (int M))"
  let ?results = "page_of P xs page"
  let ?rest = "drop ((page - 1) * P) xs"
  have cap: "cap_reached (max_pages ?self) page = (M \<le> page)"
    using assms(2) by (simp add: cap_reached_def PaginationHelper_def)
  have size: "page_size ?self = int P" by (simp add: PaginationHelper_def)
  have fetch: "paged_source xs page (page_size ?self) = Inr ?results"
    "paged_source xs page (int P) = Inr ?results"
    by (simp_all add: paged_source_def size)
  have room: "P \<le> (M + 1 - page) * P" using less.prems(2) by (cases "M + 1 - page") simp_all
  consider (empty) "?results = []"
    | (short) "?results \<noteq> []" "length ?results < P"
    | (last) "?results \<noteq> []" "\<not> length ?results < P" "M \<le> page"
    | (full) "?results \<noteq> []" "\<not> length ?results < P" "\<not> M \<le> page"
    by blast
  then show ?case
  proof cases
    case empty
    then have len: "length xs = (page - 1) * P"
      using page_of_Nil [OF assms(1) less.prems(3)] by simp
    then have d: "length xs div P = page - 1" using assms(1) by simp
    have "paginate_loop ?self (paged_source xs) page acc req = Some (acc, req @ [page])"
      by (subst paginate_loop.simps) (simp add: fetch empty del: One_nat_def)
    moreover have "?rest = []" using len by simp
    moreover have "min M (length xs div P + 1) = page"
      using d less.prems(1,2) by simp
    then have "[page ..< min M (length xs div P + 1) + 1] = [page]"
      by (simp add: upt_rec)
    ultimately show ?thesis by simp
  next
    case short
    then have lt: "length xs - (page - 1) * P < P"
      by (simp add: length_page_of)
    have d: "length xs div P = page - 1"
      using div_eq_pred [OF assms(1) less.prems(3) lt less.prems(1)] .
    have "paginate_loop ?self (paged_source xs) page acc req
            = Some (acc @ ?results, req @ [page])"
      by (subst paginate_loop.simps) (simp add: fetch short size del: One_nat_def)
    moreover have "?results = ?rest"
      using lt by (simp add: page_of_def)
    moreover have "take ((M + 1 - page) * P) ?rest = ?rest"
    proof -
      have "length ?rest < P" using lt by simp
      then have "length ?rest \<le> (M + 1 - page) * P" using room by linarith
      then show ?thesis by (rule take_all)
    qed
    moreover have "min M (length xs div P + 1) = page"
      using d less.prems(1,2) by simp
    then have "[page ..< min M (length xs div P + 1) + 1] = [page]"
      by (simp add: upt_rec)
    ultimately show ?thesis by simp
  next
    case last
    then have ge: "P \<le> length xs - (page - 1) * P"
      by (simp add: length_page_of)
    have eq: "(page - 1) * P + P = page * P"
      using less.prems(1) by (cases page) simp_all
    have nxt: "page * P \<le> length xs" using ge less.prems(3) eq by linarith
    have pM: "page = M" using last(3) less.prems(2) by simp
    have "paginate_loop ?self (paged_source xs) page acc req
            = Some (acc @ ?results, req @ [page])"
      by (subst paginate_loop.simps) (simp add: fetch last size cap del: One_nat_def)
    moreover have "take ((M + 1 - page) * P) ?rest = ?results"
      using pM by (simp add: page_of_def)
    moreover have "page \<le> length xs div P" using page_le_div [OF assms(1) nxt] .
    then have "min M (length xs div P + 1) = page" using pM by simp
    then have "[page ..< min M (length xs div P + 1) + 1] = [page]"
      by (simp add: upt_rec)
    ultimately show ?thesis by simp
  next
    case full
    then have ge: "P \<le> length xs - (page - 1) * P"
      by (simp add: length_page_of)
    have eq: "(page - 1) * P + P = page * P"
      using less.prems(1) by (cases page) simp_all
    have nxt: "page * P \<le> length xs" using ge less.prems(3) eq by linarith
    have step: "paginate_loop ?self (paged_source xs) page acc req
            = paginate_loop ?self (paged_source xs) (page + 1) (acc @ ?results) (req @ [page])"
      by (subst paginate_loop.simps) (simp add: fetch full size cap del: One_nat_def)
    have smaller: "length xs - (page + 1 - 1) * P < length xs - (page - 1) * P"
      using ge assms(1) eq by simp
    have ih: "paginate_loop ?self (paged_source xs) (page + 1) (acc @ ?results) (req @ [page])
        = Some ((acc @ ?results) @ take ((M + 1 - (page + 1)) * P) (drop ((page + 1 - 1) * P) xs),
                (req @ [page]) @ [page + 1 ..< min M (length xs div P + 1) + 1])"
      using less.hyps [OF smaller] nxt full(3) by simp
    have split: "(M + 1 - page) * P = P + (M + 1 - (page + 1)) * P"
      using full(3) by (simp add: algebra_simps Suc_diff_le)
    have "drop ((page + 1 - 1) * P) xs = drop P ?rest"
      using eq by (simp add: add.commute)
    then have items: "?results @ take ((M + 1 - (page + 1)) * P) (drop ((page + 1 - 1) * P) xs)
        = take ((M + 1 - page) * P) ?rest"
      unfolding split page_of_def by (simp only: take_add)
    have "page \<le> length xs div P" using page_le_div [OF assms(1) nxt] .
    then have "page < min M (length xs div P + 1) + 1" using less.prems(2) by simp
    then have "[page ..< min M (length xs div P + 1) + 1]
        = page # [Suc page ..< min M (length xs div P + 1) + 1]"
      by (rule upt_conv_Cons)
    then have pages: "[page] @ [page + 1 ..< min M (length xs div P + 1) + 1]
        = [page ..< min M (length xs div P + 1) + 1]"
      by simp
    show ?thesis
      unfolding step ih using items pages by simp
  qed
qed

lemma list_loop_paged:
  assumes "\<And>h page. server h (ListRequest coll sid tok page flt)
                      = Inr (Collection coll (page_of 100 xs page))"
  shows "1 \<le> page \<Longrightarrow> (page - 1) * 100 \<le> length xs \<Longrightarrow> token c = Some tok \<Longrightarrow> tok \<noteq> [] \<Longrightarrow>
     client_site_id c = sid \<Longrightarrow> filter_param project_filter = flt \<Longrightarrow>
     list_loop server coll project_filter page acc c
       = Some (Inr (acc @ drop ((page - 1) * 100) xs),
               c\<lparr>sent := sent c @ map (\<lambda>p. ListRequest coll sid tok p flt)
                                       [page ..< length xs div 100 + 2]\<rparr>)"
proof (induction "length xs - (page - 1) * 100" arbitrary: page acc c rule: less_induct)
  case less
  let ?results = "page_of 100 xs page"
  let ?req = "ListRequest coll sid tok page flt"
  let ?c1 = "c\<lparr>sent := sent c @ [?req]\<rparr>"
  have hd: "headers c = Inr tok"
    using less.prems(3,4) by (simp add: headers_def truthy_def)
  have snd: "send server ?req c = (Inr (Collection coll ?results), ?c1)"
    by (simp add: send_def assms)
  have found: "or_empty (collection_of coll (Collection coll ?results)) = ?results"
    by (simp add: collection_of_def or_empty_def)
  show ?case
  proof (cases "length ?results < 100")
    case True
    then have lt: "length xs - (page - 1) * 100 < 100"
      by (simp add: length_page_of)
    have d: "length xs div 100 = page - 1"
      using div_eq_pred [OF _ less.prems(2) lt less.prems(1)] by simp
    have "list_loop server coll project_filter page acc c = Some (Inr (acc @ ?results), ?c1)"
      by (subst list_loop.simps)
         (simp add: hd less.prems(5,6) snd found True del: One_nat_def)
    moreover have "?results = drop ((page - 1) * 100) xs"
      using lt by (simp add: page_of_def)
    moreover have "[page ..< length xs div 100 + 2] = [page]"
      using d less.prems(1) by (simp add: upt_rec)
    ultimately show ?thesis by simp
  next
    case False
    then have ge: "100 \<le> length xs - (page - 1) * 100"
      by (simp add: length_page_of)
    have eq: "(page - 1) * 100 + 100 = page * 100"
      using less.prems(1) by (cases page) simp_all
    have nxt: "page * 100 \<le> length xs" using ge less.prems(2) eq by linarith
    have step: "list_loop server coll project_filter page acc c
            = list_loop server coll project_filter (page + 1) (acc @ ?results) ?c1"
      by (subst list_loop.simps)
         (simp add: hd less.prems(5,6) snd found False del: One_nat_def)
    have smaller: "length xs - (page + 1 - 1) * 100 < length xs - (page - 1) * 100"
      using ge eq by simp
    have ih: "list_loop server coll project_filter (page + 1) (acc @ ?results) ?c1
        = Some (Inr ((acc @ ?results) @ drop ((page + 1 - 1) * 100) xs),
                ?c1\<lparr>sent := sent ?c1 @ map (\<lambda>p. ListRequest coll sid tok p flt)
                                           [page + 1 ..< length xs div 100 + 2]\<rparr>)"
      using less.hyps [OF smaller, of ?c1 "acc @ ?results"] nxt less.prems(3,4,5,6) by simp
    have items: "?results @ drop ((page + 1 - 1) * 100) xs = drop ((page - 1) * 100) xs"
      using page_of_next [OF less.prems(1)] by simp
    have "page \<le> length xs div 100" using page_le_div [OF _ nxt] by simp
    then have pages: "[page ..< length xs div 100 + 2] = page # [page + 1 ..< length xs div 100 + 2]"
      by (simp add: upt_rec [of page])
    show ?thesis
      unfolding step ih pages using items by simp
  qed
qed

lemma paginate_requests_uncapped:
  assumes "0 < P" and "cap = None \<or> cap = Some 0"
  shows "paginate_requests (PaginationHelper (int P) cap) (paged_source xs)
           = Some (xs, [1 ..< length xs div P + 2])"
  unfolding paginate_requests_def
  using paginate_loop_uncapped [OF assms, of 1 xs "[]" "[]"] by simp

lemma paginate_requests_capped:
  assumes "0 < P" and "0 < M"
  shows "paginate_requests (PaginationHelper (int P) (Some (int M))) (paged_source xs)
           = Some (take (M * P) xs, [1 ..< min M (length xs div P + 1) + 1])"
  unfolding paginate_requests_def
  using paginate_loop_capped [OF assms, of 1 xs "[]" "[]"] assms(2) by simp

lemma list_workbooks_paged:
  assumes "truthy (token c)"
    and "\<And>h page. server h (ListRequest Workbooks (client_site_id c) (the (token c)) page
                                (filter_param project_filter))
                      = Inr (Collection Workbooks (page_of 100 xs page))"
  shows "list_workbooks server project_filter c
           = Some (Inr xs,
                   c\<lparr>sent := sent c @ map (\<lambda>p. ListRequest Workbooks (client_site_id c)
                                                  (the (token c)) p (filter_param project_filter))
                                           [1 ..< length xs div 100 + 2]\<rparr>)"
proof -
  obtain tok where tok: "token c = Some tok" "tok \<noteq> []"
    using assms(1) by (auto simp: truthy_def split: option.splits)
  have "list_loop server Workbooks project_filter 1 [] c
           = Some (Inr ([] @ drop ((1 - 1) * 100) xs),
                   c\<lparr>sent := sent c @ map (\<lambda>p. ListRequest Workbooks (client_site_id c)
                                                  tok p (filter_param project_filter))
                                           [1 ..< length xs div 100 + 2]\<rparr>)"
    using assms(2) tok by (intro list_loop_paged) simp_all
  then show ?thesis
    using assms(1) tok by (simp add: list_workbooks_def)
qed

text \<open>
  Claim C6, as the specification states it, fails where it names the cap: a driver stopped
  by \<^verbatim>\<open>max_pages\<close> has not returned all the items. Of five items in pages of two, a cap
  of one page returns the first two, after one request.
\<close>

theorem pagination_cap_counterexample:
  "paginate_requests (PaginationHelper 2 (Some 1)) (paged_source ''abcde'') = Some (''ab'', [1])
   \<and> length ''ab'' \<noteq> length ''abcde''"
  unfolding paginate_requests_def
  by (subst paginate_loop.simps)
     (simp add: PaginationHelper_def paged_source_def page_of_def cap_reached_def)

text \<open>
  Claim C6, amended: for every source of \<open>N\<close> items and every page size \<open>P > 0\<close>,
  \<^verbatim>\<open>paginate_requests\<close> asks for the pages 1, 2, ... in turn. With no cap
  (\<^verbatim>\<open>max_pages\<close> \<^verbatim>\<open>None\<close> or 0) it returns all \<open>N\<close> items, each once and in order,
  after exactly \<open>N div P + 1\<close> requests: one request when \<open>N = 0\<close>, and one request for
  an empty page after the last full one when \<open>P\<close> divides \<open>N\<close>. With a cap of \<open>M > 0\<close>
  pages it makes \<open>min M (N div P + 1)\<close> requests and returns the first \<open>M * P\<close> items
  (all of them when there are no more). \<^verbatim>\<open>list_workbooks\<close>, whose page size is 100 and
  which has no cap, returns all \<open>N\<close> workbooks of a server that pages them, after exactly
  \<open>N div 100 + 1\<close> requests for the pages 1, 2, ...
\<close>

theorem pagination_counts:
  assumes "0 < P"
  shows "(cap = None \<or> cap = Some 0 \<longrightarrow>
            paginate_requests (PaginationHelper (int P) cap) (paged_source xs)
              = Some (xs, [1 ..< length xs div P + 2]))
       \<and> (0 < M \<longrightarrow>
            paginate_requests (PaginationHelper (int P) (Some (int M))) (paged_source xs)
              = Some (take (M * P) xs, [1 ..< min M (length xs div P + 1) + 1]))
       \<and> (truthy (token c)
            \<and> (\<forall>h page. server h (ListRequest Workbooks (client_site_id c) (the (token c)) page
                                     (filter_param project_filter))
                           = Inr (Collection Workbooks (page_of 100 ys page))) \<longrightarrow>
            list_workbooks server project_filter c
              = Some (Inr ys,
                      c\<lparr>sent := sent c @ map (\<lambda>p. ListRequest Workbooks (client_site_id c)
                                                    (the (token c)) p (filter_param project_filter))
                                              [1 ..< length ys div 100 + 2]\<rparr>))"
proof (intro conjI impI)
  assume "cap = None \<or> cap = Some 0"
  then show "paginate_requests (PaginationHelper (int P) cap) (paged_source xs)
               = Some (xs, [1 ..< length xs div P + 2])"
    by (rule paginate_requests_uncapped [OF assms])
next
  assume "0 < M"
  then show "paginate_requests (PaginationHelper (int P) (Some (int M))) (paged_source xs)
               = Some (take (M * P) xs, [1 ..< min M (length xs div P + 1) + 1])"
    by (rule paginate_requests_capped [OF assms])
next
  assume a: "truthy (token c)
            \<and> (\<forall>h page. server h (ListRequest Workbooks (client_site_id c) (the (token c)) page
                                     (filter_param project_filter))
                           = Inr (Collection Workbooks (page_of 100 ys page)))"
  show "list_workbooks server project_filter c
              = Some (Inr ys,
                      c\<lparr>sent := sent c @ map (\<lambda>p. ListRequest Workbooks (client_site_id c)
                                                    (the (token c)) p (filter_param project_filter))
                                              [1 ..< length ys div 100 + 2]\<rparr>)"
  proof (rule list_workbooks_paged)
    show "truthy (token c)" using a by (rule conjunct1)
    show "\<And>h page. server h (ListRequest Workbooks (client_site_id c) (the (token c)) page
                                     (filter_param project_filter))
                           = Inr (Collection Workbooks (page_of 100 ys page))"
      using a by simp
  qed
qed

theorem pagination_counts_witness:
  "paginate_requests (PaginationHelper 2 None) (paged_source ''abcde'')
     = Some (''abcde'', [1, 2, 3])
   \<and> paginate_requests (PaginationHelper 2 None) (paged_source ''abcd'')
     = Some (''abcd'', [1, 2, 3])
   \<and> paginate_requests (PaginationHelper 2 (Some 0)) (paged_source ([] :: string)) = Some ([], [1])
   \<and> paginate_requests (PaginationHelper 2 (Some 2)) (paged_source ''abcde'')
     = Some (''abcd'', [1, 2])
   \<and> list_workbooks (paged_server [example_rest_workbook]) None signed_in
     = Some (Inr [example_rest_workbook],
             signed_in\<lparr>sent := [ListRequest Workbooks (Some ''s1'') ''tok'' 1 None]\<rparr>)"
proof -
  have pos: "0 < (2::nat)" by simp
  have tok: "truthy (token signed_in)" by (simp add: signed_in_def TableauClient_def truthy_def)
  have srv: "\<forall>h page. paged_server [example_rest_workbook] h
                 (ListRequest Workbooks (client_site_id signed_in) (the (token signed_in)) page
                    (filter_param None))
               = Inr (Collection Workbooks (page_of 100 [example_rest_workbook] page))"
    by (simp add: paged_server_def)
  have a: "paginate_requests (PaginationHelper 2 None) (paged_source ''abcde'')
             = Some (''abcde'', [1, 2, 3])"
    using pagination_counts [OF pos, of None "''abcde''", THEN conjunct1]
    by (simp add: upt_conv_Cons)
  have b: "paginate_requests (PaginationHelper 2 None) (paged_source ''abcd'')
             = Some (''abcd'', [1, 2, 3])"
    using pagination_counts [OF pos, of None "''abcd''", THEN conjunct1]
    by (simp add: upt_conv_Cons)
  have c: "paginate_requests (PaginationHelper 2 (Some 0)) (paged_source ([] :: string))
             = Some ([], [1])"
    using pagination_counts [OF pos, of "Some 0" "[] :: string", THEN conjunct1]
    by (simp add: upt_conv_Cons)
  have d: "paginate_requests (PaginationHelper 2 (Some 2)) (paged_source ''abcde'')
             = Some (''abcd'', [1, 2])"
    using pagination_counts [OF pos, of _ "''abcde''" 2, THEN conjunct2, THEN conjunct1]
    by (simp add: upt_conv_Cons)
  have e: "list_workbooks (paged_server [example_rest_workbook]) None signed_in
     = Some (Inr [example_rest_workbook],
             signed_in\<lparr>sent := [ListRequest Workbooks (Some ''s1'') ''tok'' 1 None]\<rparr>)"
    using pagination_counts [OF pos, of _ _ _ signed_in "paged_server [example_rest_workbook]"
        None "[example_rest_workbook]", THEN conjunct2, THEN conjunct2] tok srv
    by (simp add: upt_conv_Cons signed_in_def TableauClient_def filter_param_def truthy_def)
  show ?thesis using a b c d e by simp
qed

text \<open>
  Claim C10: when the client holds no session token (\<^verbatim>\<open>None\<close>, as before the sign-in and
  after the sign-out, or an empty one), each of \<^verbatim>\<open>list_workbooks\<close>,
  \<^verbatim>\<open>list_datasources\<close>, \<^verbatim>\<open>list_views\<close>, \<^verbatim>\<open>list_views_for_workbook\<close> and
  \<^verbatim>\<open>get_workbook_details\<close> returns the error
  \<^verbatim>\<open>ValueError("Not authenticated. Call signin() first.")\<close> and leaves the client as it
  was: nothing is added to the requests sent.
\<close>

theorem unauthenticated_calls_fail:
  assumes "\<not> truthy (token c)"
  shows "list_workbooks server project_filter c
           = Some (Inl (ValueError ''Not authenticated. Call signin() first.''), c)
       \<and> list_datasources server project_filter c
           = Some (Inl (ValueError ''Not authenticated. Call signin() first.''), c)
       \<and> list_views server project_filter c
           = Some (Inl (ValueError ''Not authenticated. Call signin() first.''), c)
       \<and> list_views_for_workbook server workbook_id c
           = (Inl (ValueError ''Not authenticated. Call signin() first.''), c)
       \<and> get_workbook_details server workbook_id c
           = (Inl (ValueError ''Not authenticated. Call signin() first.''), c)"
  using assms
  by (simp add: list_workbooks_def list_datasources_def list_views_def
        list_views_for_workbook_def get_workbook_details_def)

theorem unauthenticated_calls_fail_witness:
  "list_workbooks (paged_server [example_rest_workbook]) None
       (TableauClient ''pat'' ''secret'' ''Main'')
     = Some (Inl (ValueError ''Not authenticated. Call signin() first.''),
             TableauClient ''pat'' ''secret'' ''Main'')
   \<and> sent (snd (get_workbook_details (paged_server [example_rest_workbook]) ''wb-1''
                  (TableauClient ''pat'' ''secret'' ''Main''))) = []
   \<and> list_workbooks (paged_server [example_rest_workbook]) None signed_in
     \<noteq> Some (Inl (ValueError ''Not authenticated. Call signin() first.''), signed_in)"
proof -
  have h: "\<not> truthy (token (TableauClient ''pat'' ''secret'' ''Main''))"
    by (simp add: TableauClient_def truthy_def)
  have sent0: "sent (TableauClient ''pat'' ''secret'' ''Main'') = []"
    by (simp add: TableauClient_def)
  note inst = unauthenticated_calls_fail [OF h, of "paged_server [example_rest_workbook]" None
                 "''wb-1''"]
  have a: "list_workbooks (paged_server [example_rest_workbook]) None
       (TableauClient ''pat'' ''secret'' ''Main'')
     = Some (Inl (ValueError ''Not authenticated. Call signin() first.''),
             TableauClient ''pat'' ''secret'' ''Main'')"
    using inst by (simp only:)
  have b: "sent (snd (get_workbook_details (paged_server [example_rest_workbook]) ''wb-1''
                  (TableauClient ''pat'' ''secret'' ''Main''))) = []"
    using inst sent0 by simp
  have c: "list_workbooks (paged_server [example_rest_workbook]) None signed_in
     \<noteq> Some (Inl (ValueError ''Not authenticated. Call signin() first.''), signed_in)"
    unfolding list_workbooks_def
    by (subst list_loop.simps)
       (simp add: signed_in_def TableauClient_def truthy_def headers_def send_def
          paged_server_def filter_param_def collection_of_def or_empty_def page_of_def)
  show ?thesis using a b c by simp
qed

subsection \<open>The search\<close>

lemma insort_key_cong_le:
  "\<forall>y\<in>set ys. (f x \<le> f y) = (g x \<le> g y) \<Longrightarrow> insort_key f x ys = insort_key g x ys"
  by (induction ys) simp_all

lemma sort_key_cong_le:
  "\<forall>x\<in>set xs. \<forall>y\<in>set xs. (f x \<le> f y) = (g x \<le> g y) \<Longrightarrow> sort_key f xs = sort_key g xs"
proof (induction xs)
  case Nil
  show ?case by simp
next
  case (Cons x xs)
  then have "sort_key f xs = sort_key g xs" by simp
  moreover have "insort_key f x (sort_key g xs) = insort_key g x (sort_key g xs)"
    using Cons.prems by (intro insort_key_cong_le) simp
  ultimately show ?case by (simp add: sort_key_simps)
qed

lemma sort_by_similarity:
  "sort_key (\<lambda>r. - similarity be q r) xs
     = sort_key (\<lambda>r. cosine_distance be (the (embedding r)) q) xs"
  by (rule sort_key_cong_le) (simp add: similarity_def)

lemma vector_search_spec:
  assumes "reachable s" and "vector_fault be = None" and "0 \<le> limit"
  shows "vector_search be s q limit threshold = Inr (spec_vector_step be s q limit threshold)"
proof -
  have "(\<lambda>r. (r, 1 - cosine_distance be (the (embedding r)) q)) = (\<lambda>r. (r, similarity be q r))"
    by (simp add: similarity_def)
  then show ?thesis
    using assms
    by (simp add: vector_search_def execute_vector_query_def try_except_def spec_vector_step_def
          sort_by_similarity take_map)
qed

lemma text_search_spec:
  assumes "reachable s" and "text_fault be = None" and "0 \<le> limit"
  shows "text_search be s query limit = Inr (spec_lexical_step be s query limit)"
  using assms
  by (simp add: text_search_def execute_text_query_def try_except_def spec_lexical_step_def
        take_map)

lemma text_search_returns: "\<exists>results. text_search be s query limit = Inr results"
  by (cases "execute_text_query be s query limit") (simp_all add: text_search_def try_except_def)

lemma vector_search_returns: "\<exists>results. vector_search be s q limit threshold = Inr results"
  by (cases "execute_vector_query be s q limit") (simp_all add: vector_search_def try_except_def)

lemma search_returns: "\<exists>results. search be s query limit threshold = Inr results"
proof (cases "strip query = []")
  case True
  then show ?thesis by (simp add: search_def)
next
  case False
  obtain t where t: "text_search be s query limit = Inr t"
    using text_search_returns [of be s query limit] by blast
  show ?thesis
  proof (cases "encode be query")
    case (Inl e)
    with False t show ?thesis by (simp add: search_def try_except_def)
  next
    case (Inr q)
    obtain v where v: "vector_search be s q limit threshold = Inr v"
      using vector_search_returns [of be s q limit threshold] by blast
    with False t Inr show ?thesis by (simp add: search_def try_except_def)
  qed
qed

lemma vector_search_fails:
  assumes "\<not> reachable s \<or> vector_fault be \<noteq> None \<or> limit < 0"
  shows "vector_search be s q limit threshold = Inr []"
  using assms
  by (auto simp: vector_search_def execute_vector_query_def try_except_def split: option.splits)

lemma text_search_fails:
  assumes "\<not> reachable s \<or> text_fault be \<noteq> None \<or> limit < 0"
  shows "text_search be s query limit = Inr []"
  using assms
  by (auto simp: text_search_def execute_text_query_def try_except_def split: option.splits)

lemma search_falls_back:
  assumes "strip query \<noteq> []"
    and "(\<exists>e. encode be query = Inl e) \<or> \<not> reachable s \<or> vector_fault be \<noteq> None \<or> limit < 0"
  shows "search be s query limit threshold = text_search be s query limit"
proof (cases "encode be query")
  case (Inl e)
  with assms(1) show ?thesis by (simp add: search_def try_except_def)
next
  case (Inr q)
  with assms(2) have "\<not> reachable s \<or> vector_fault be \<noteq> None \<or> limit < 0" by simp
  then have "vector_search be s q limit threshold = Inr []" by (rule vector_search_fails)
  moreover obtain t where "text_search be s query limit = Inr t"
    using text_search_returns [of be s query limit] by blast
  ultimately show ?thesis using assms(1) Inr by (simp add: search_def try_except_def)
qed

lemma search_unreachable:
  assumes "\<not> reachable s"
  shows "search be s query limit threshold = Inr []"
proof (cases "strip query = []")
  case True
  then show ?thesis by (simp add: search_def)
next
  case False
  then have "search be s query limit threshold = text_search be s query limit"
    using assms by (intro search_falls_back) simp_all
  also have "\<dots> = Inr []" using assms by (intro text_search_fails) simp
  finally show ?thesis .
qed

lemma search_spec:
  assumes "strip query \<noteq> []" and "encode be query = Inr q" and "reachable s"
    and "vector_fault be = None" and "text_fault be = None" and "0 \<le> limit"
  shows "search be s query limit threshold
           = Inr (if spec_vector_step be s q limit threshold = []
                  then spec_lexical_step be s query limit
                  else spec_vector_step be s q limit threshold)"
  using assms
  by (simp add: search_def try_except_def vector_search_spec text_search_spec)

lemma spec_vector_step_length: "length (spec_vector_step be s q limit threshold) \<le> nat limit"
proof -
  have "length (spec_vector_step be s q limit threshold)
          \<le> length (take (nat limit) (map (\<lambda>r. (r, similarity be q r))
               (sort_key (\<lambda>r. - similarity be q r) (filter (\<lambda>r. embedding r \<noteq> None) (rows s)))))"
    unfolding spec_vector_step_def by (rule length_filter_le)
  then show ?thesis by simp
qed

lemma spec_vector_step_members:
  assumes "(r, sim) \<in> set (spec_vector_step be s q limit threshold)"
  shows "r \<in> set (rows s) \<and> embedding r \<noteq> None \<and> sim = similarity be q r \<and> threshold \<le> sim"
proof -
  from assms have th: "threshold \<le> sim"
    and "(r, sim) \<in> set (take (nat limit) (map (\<lambda>r. (r, similarity be q r))
               (sort_key (\<lambda>r. - similarity be q r) (filter (\<lambda>r. embedding r \<noteq> None) (rows s)))))"
    by (simp_all add: spec_vector_step_def)
  then have "(r, sim) \<in> set (map (\<lambda>r. (r, similarity be q r))
               (sort_key (\<lambda>r. - similarity be q r) (filter (\<lambda>r. embedding r \<noteq> None) (rows s))))"
    by (blast dest: in_set_takeD)
  then show ?thesis using th by auto
qed

lemma spec_vector_step_sorted:
  "sorted (map (\<lambda>p. - snd p) (spec_vector_step be s q limit threshold))"
proof -
  let ?ranked = "sort_key (\<lambda>r. - similarity be q r) (filter (\<lambda>r. embedding r \<noteq> None) (rows s))"
  have "sorted (map (\<lambda>r. - similarity be q r) ?ranked)" by (rule sorted_sort_key)
  then have "sorted (take (nat limit) (map (\<lambda>r. - similarity be q r) ?ranked))"
    by (rule sorted_wrt_take)
  then have "sorted (map (\<lambda>p. - snd p) (take (nat limit) (map (\<lambda>r. (r, similarity be q r)) ?ranked)))"
    by (simp add: take_map comp_def)
  then show ?thesis
    unfolding spec_vector_step_def by (rule sorted_filter)
qed

lemma spec_vector_step_top:
  assumes "r \<in> set (rows s)" and "embedding r \<noteq> None" and "threshold \<le> similarity be q r"
    and "r \<notin> fst ` set (spec_vector_step be s q limit threshold)"
    and "(k, sim) \<in> set (spec_vector_step be s q limit threshold)"
  shows "similarity be q r \<le> sim"
proof -
  let ?f = "\<lambda>r. - similarity be q r"
  let ?ranked = "sort_key ?f (filter (\<lambda>r. embedding r \<noteq> None) (rows s))"
  let ?kept = "take (nat limit) ?ranked"
  have res: "spec_vector_step be s q limit threshold
               = filter (\<lambda>(r, sim). threshold \<le> sim) (map (\<lambda>r. (r, similarity be q r)) ?kept)"
    by (simp add: spec_vector_step_def take_map)
  have "r \<notin> set ?kept"
  proof
    assume "r \<in> set ?kept"
    then have "(r, similarity be q r) \<in> set (spec_vector_step be s q limit threshold)"
      unfolding res using assms(3) by auto
    then have "r \<in> fst ` set (spec_vector_step be s q limit threshold)"
      by (rule rev_image_eqI) simp
    with assms(4) show False by simp
  qed
  moreover have "r \<in> set ?ranked" using assms(1,2) by simp
  moreover have "set ?ranked = set ?kept \<union> set (drop (nat limit) ?ranked)"
    by (metis append_take_drop_id set_append)
  ultimately have r: "r \<in> set (drop (nat limit) ?ranked)" by blast
  have k: "k \<in> set ?kept" and sim: "sim = similarity be q k"
    using assms(5) unfolding res by auto
  have "sorted (map ?f ?ranked)" by (rule sorted_sort_key)
  then have "sorted (map ?f ?kept @ map ?f (drop (nat limit) ?ranked))"
    by (metis append_take_drop_id map_append)
  then have "?f k \<le> ?f r"
    using k r by (auto simp: sorted_append)
  then show ?thesis using sim by simp
qed

text \<open>
  Claim C4, as the specification states it, fails for a query that is not empty but is
  empty once stripped: \<^verbatim>\<open>search\<close> returns nothing for the query of one blank, which the
  model embeds, while the vector step on that embedding, with threshold 0, yields the two
  rows that have an embedding.
\<close>

theorem search_blank_query_counterexample:
  "strip '' '' = []
   \<and> search example_backend searched_store '' '' 10 0 = Inr []
   \<and> encode example_backend '' '' = Inr 0
   \<and> length (spec_vector_step example_backend searched_store 0 10 0) = 2"
  by (simp add: search_def strip_def is_space_def example_backend_def searched_store_def
        spec_vector_step_def similarity_def inserted_row_def record_data_def
        example_record_def or_empty_def)

text \<open>
  Claim C4, amended: for every query that is not empty once stripped of white space, when
  the model embeds the query, the store can be reached, neither statement fails and the
  limit is not negative, \<^verbatim>\<open>search\<close> returns the result of the vector step if that is
  not empty, and otherwise the result of the lexical step, with the same limit and no
  threshold. The vector step has at most \<^verbatim>\<open>limit\<close> rows, in descending order of
  similarity; each has an embedding and a similarity, \<open>1\<close> minus its cosine distance to the
  query embedding, of at least the threshold; and a row with an embedding that would pass
  the threshold and is not returned has a similarity no greater than that of any row
  returned.
\<close>

theorem search_vector_first:
  assumes "strip query \<noteq> []" and "encode be query = Inr q" and "reachable s"
    and "vector_fault be = None" and "text_fault be = None" and "0 \<le> limit"
  shows "search be s query limit threshold
           = Inr (if spec_vector_step be s q limit threshold = []
                  then spec_lexical_step be s query limit
                  else spec_vector_step be s q limit threshold)
       \<and> length (spec_vector_step be s q limit threshold) \<le> nat limit
       \<and> length (spec_lexical_step be s query limit) \<le> nat limit
       \<and> sorted (map (\<lambda>p. - snd p) (spec_vector_step be s q limit threshold))
       \<and> (\<forall>(r, sim) \<in> set (spec_vector_step be s q limit threshold).
             r \<in> set (rows s) \<and> embedding r \<noteq> None \<and> sim = similarity be q r \<and> threshold \<le> sim)
       \<and> (\<forall>r \<in> set (rows s). embedding r \<noteq> None \<longrightarrow> threshold \<le> similarity be q r \<longrightarrow>
             r \<notin> fst ` set (spec_vector_step be s q limit threshold) \<longrightarrow>
             (\<forall>(k, sim) \<in> set (spec_vector_step be s q limit threshold). similarity be q r \<le> sim))"
proof (intro conjI)
  show "search be s query limit threshold
           = Inr (if spec_vector_step be s q limit threshold = []
                  then spec_lexical_step be s query limit
                  else spec_vector_step be s q limit threshold)"
    using assms by (rule search_spec)
  show "length (spec_vector_step be s q limit threshold) \<le> nat limit"
    by (rule spec_vector_step_length)
  show "length (spec_lexical_step be s query limit) \<le> nat limit"
    by (simp add: spec_lexical_step_def)
  show "sorted (map (\<lambda>p. - snd p) (spec_vector_step be s q limit threshold))"
    by (rule spec_vector_step_sorted)
  show "\<forall>(r, sim) \<in> set (spec_vector_step be s q limit threshold).
             r \<in> set (rows s) \<and> embedding r \<noteq> None \<and> sim = similarity be q r \<and> threshold \<le> sim"
    using spec_vector_step_members [of _ _ be s q limit threshold] by blast
  show "\<forall>r \<in> set (rows s). embedding r \<noteq> None \<longrightarrow> threshold \<le> similarity be q r \<longrightarrow>
             r \<notin> fst ` set (spec_vector_step be s q limit threshold) \<longrightarrow>
             (\<forall>(k, sim) \<in> set (spec_vector_step be s q limit threshold). similarity be q r \<le> sim)"
    using spec_vector_step_top [of _ s threshold be q limit] by blast
qed

theorem search_vector_first_witness:
  "search example_backend searched_store ''sales'' 1 (1 / 2)
     = Inr [(rows searched_store ! 1, 3 / 4)]
   \<and> search example_backend searched_store ''sales'' 1 (9 / 10)
     = Inr [(rows searched_store ! 0, 1 / 10)]"
proof -
  have h1: "strip ''sales'' \<noteq> []" by (simp add: strip_def is_space_def)
  have h2: "encode example_backend ''sales'' = Inr 0" by (simp add: example_backend_def)
  have h3: "reachable searched_store" by (simp add: searched_store_def)
  have h4: "vector_fault example_backend = None" by (simp add: example_backend_def)
  have h5: "text_fault example_backend = None" by (simp add: example_backend_def)
  have h6: "0 \<le> (1::int)" by simp
  have v1: "spec_vector_step example_backend searched_store 0 1 (1 / 2)
              = [(rows searched_store ! 1, 3 / 4)]"
    by (simp add: example_backend_def searched_store_def spec_vector_step_def similarity_def
          inserted_row_def record_data_def example_record_def or_empty_def)
  have v2: "spec_vector_step example_backend searched_store 0 1 (9 / 10) = []"
    by (simp add: example_backend_def searched_store_def spec_vector_step_def similarity_def
          inserted_row_def record_data_def example_record_def or_empty_def)
  have l2: "spec_lexical_step example_backend searched_store ''sales'' 1
              = [(rows searched_store ! 0, 1 / 10)]"
    by (simp add: example_backend_def searched_store_def spec_lexical_step_def startswith_def
          inserted_row_def record_data_def example_record_def or_empty_def)
  have a: "search example_backend searched_store ''sales'' 1 (1 / 2)
             = Inr [(rows searched_store ! 1, 3 / 4)]"
    using search_vector_first [OF h1 h2 h3 h4 h5 h6, of "1 / 2", THEN conjunct1]
    by (simp only: v1 list.simps simp_thms if_False)
  have b: "search example_backend searched_store ''sales'' 1 (9 / 10)
             = Inr [(rows searched_store ! 0, 1 / 10)]"
    using search_vector_first [OF h1 h2 h3 h4 h5 h6, of "9 / 10", THEN conjunct1]
    by (simp only: v2 l2 simp_thms if_True)
  show ?thesis using a b by (rule conjI)
qed

text \<open>
  Claim C8, as the specification states it, fails in its last clause: a store that cannot
  be reached does not surface as an error. Both searches catch the error of the connection,
  and \<^verbatim>\<open>search\<close> returns the empty list, where the same query on the store when it can be
  reached returns rows.
\<close>

theorem search_unreachable_store_counterexample:
  "\<not> reachable (searched_store\<lparr>reachable := False\<rparr>)
   \<and> search example_backend (searched_store\<lparr>reachable := False\<rparr>) ''sales'' 10 0 = Inr []
   \<and> search example_backend searched_store ''sales'' 10 0 \<noteq> Inr []"
  by (simp add: search_def strip_def is_space_def try_except_def example_backend_def
        searched_store_def vector_search_def execute_vector_query_def text_search_def
        execute_text_query_def inserted_row_def record_data_def example_record_def or_empty_def)

text \<open>
  Claim C8, amended: \<^verbatim>\<open>search\<close> always returns a list and never an error. For a query
  that is not empty once stripped, when the embedding model fails, or the vector statement
  fails (the store cannot be reached, the database answers with an error, the limit is
  negative), the result is that of the lexical search; the lexical search returns the empty
  list when its own statement fails; and when the store cannot be reached at all the result
  of \<^verbatim>\<open>search\<close> is the empty list, not an error.
\<close>

theorem search_never_raises:
  "(\<exists>results. search be s query limit threshold = Inr results)
   \<and> (strip query \<noteq> []
        \<and> ((\<exists>e. encode be query = Inl e) \<or> \<not> reachable s \<or> vector_fault be \<noteq> None \<or> limit < 0)
      \<longrightarrow> search be s query limit threshold = text_search be s query limit)
   \<and> (\<exists>results. text_search be s query limit = Inr results)
   \<and> (\<not> reachable s \<or> text_fault be \<noteq> None \<or> limit < 0
      \<longrightarrow> text_search be s query limit = Inr [])
   \<and> (\<not> reachable s \<longrightarrow> search be s query limit threshold = Inr [])"
  using search_returns [of be s query limit threshold] search_falls_back [of query be s limit threshold]
    text_search_returns [of be s query limit] text_search_fails [of s be limit query]
    search_unreachable [of s be query limit threshold]
  by blast

theorem search_never_raises_witness:
  "search (example_backend\<lparr>encode := (\<lambda>text. Inl TypeError)\<rparr>) searched_store ''sales'' 1 0
     = Inr [(rows searched_store ! 0, 1 / 10)]
   \<and> search (example_backend\<lparr>vector_fault := Some SQLAlchemyError,
                               text_fault := Some SQLAlchemyError\<rparr>) searched_store ''sales'' 1 0
     = Inr []"
proof -
  have h1: "strip ''sales'' \<noteq> []" by (simp add: strip_def is_space_def)
  have t1: "text_search (example_backend\<lparr>encode := (\<lambda>text. Inl TypeError)\<rparr>) searched_store
              ''sales'' 1 = Inr [(rows searched_store ! 0, 1 / 10)]"
    by (simp add: text_search_def execute_text_query_def try_except_def example_backend_def
          searched_store_def startswith_def inserted_row_def record_data_def example_record_def
          or_empty_def)
  have "search (example_backend\<lparr>encode := (\<lambda>text. Inl TypeError)\<rparr>) searched_store ''sales'' 1 0
         = text_search (example_backend\<lparr>encode := (\<lambda>text. Inl TypeError)\<rparr>) searched_store
             ''sales'' 1"
    using search_never_raises [of "example_backend\<lparr>encode := (\<lambda>text. Inl TypeError)\<rparr>"
        searched_store "''sales''" 1 0, THEN conjunct2, THEN conjunct1] h1
    by simp
  then have a: "search (example_backend\<lparr>encode := (\<lambda>text. Inl TypeError)\<rparr>) searched_store
                  ''sales'' 1 0 = Inr [(rows searched_store ! 0, 1 / 10)]"
    using t1 by (simp only:)
  let ?be = "example_backend\<lparr>vector_fault := Some SQLAlchemyError,
                               text_fault := Some SQLAlchemyError\<rparr>"
  note inst = search_never_raises [of ?be searched_store "''sales''" 1 0]
  have "search ?be searched_store ''sales'' 1 0 = text_search ?be searched_store ''sales'' 1"
    using inst [THEN conjunct2, THEN conjunct1] h1 by simp
  moreover have "text_search ?be searched_store ''sales'' 1 = Inr []"
    using inst [THEN conjunct2, THEN conjunct2, THEN conjunct2, THEN conjunct1] by simp
  ultimately have b: "search ?be searched_store ''sales'' 1 0 = Inr []" by (simp only:)
  show ?thesis using a b by (rule conjI)
qed

subsection \<open>The indexing run\<close>

lemma limit_records_Nil: "limit_records max_objects [] = []"
  by (simp add: limit_records_def split: option.splits)

lemma list_datasources_empty:
  assumes "truthy (token c)"
    and "\<And>h page. server h (ListRequest Datasources (client_site_id c) (the (token c)) page
                                (filter_param project_filter))
                      = Inr (Collection Datasources [])"
  shows "list_datasources server project_filter c
           = Some (Inr [],
                   c\<lparr>sent := sent c @ [ListRequest Datasources (client_site_id c) (the (token c)) 1
                                          (filter_param project_filter)]\<rparr>)"
proof -
  obtain tok where tok: "token c = Some tok" "tok \<noteq> []"
    using assms(1) by (auto simp: truthy_def split: option.splits)
  have hd: "headers c = Inr tok" using tok by (simp add: headers_def truthy_def)
  have "list_loop server Datasources project_filter 1 [] c
          = Some (Inr [],
                  c\<lparr>sent := sent c @ [ListRequest Datasources (client_site_id c) tok 1
                                         (filter_param project_filter)]\<rparr>)"
    using assms(2) [of "sent c" 1] tok
    by (subst list_loop.simps)
       (simp add: hd send_def collection_of_def or_empty_def del: One_nat_def)
  then show ?thesis using assms(1) tok by (simp add: list_datasources_def)
qed

text \<open>
  Claim C3: a run of \<^verbatim>\<open>index_site\<close> that reaches the quality gate (the sign-in
  succeeded, the store can be reached, the fetch and the normalisation returned records,
  quality checks are enabled) and whose gate returns \<^verbatim>\<open>overall_quality = False\<close>
  returns, with one error counted and nothing processed, after the sign-out, and the store
  after the run is the store before it: no row is written, changed or removed.
\<close>

theorem blocked_run_writes_nothing:
  assumes "signin server (TableauClient name secret site) = (Inr True, c1)"
    and "reachable s"
    and "fetch_comprehensive_metadata server (if truthy object_types then object_types else None) c1
           = Some (Inr md, c2)"
    and "prepare_objects_for_indexing (client_site_id c2) md = Inr prepared"
    and "limit_records max_objects prepared \<noteq> []"
    and "enable_quality_checks"
    and "\<not> overall_quality (fst (run_all_checks (limit_records max_objects prepared)
                                   (QualityChecker (the (client_site_id c1)) site)))"
  shows "index_site server clock name secret site project_filter object_types
           enable_quality_checks max_objects s
           = Some (initial_stats\<lparr>errors := 1\<rparr>, snd (signout server c2), s)"
proof -
  have ne: "prepared \<noteq> []" using assms(5) limit_records_Nil by metis
  have cnt: "get_record_count (client_site_id c1) None s
               = Inr (length (filter (\<lambda>r. if truthy (client_site_id c1)
                                            then row_site_id r = the (client_site_id c1) else True)
                                (rows s)))"
    using assms(2) by (simp add: get_record_count_def truthy_def)
  have "index_site_try server clock name secret site project_filter object_types
           enable_quality_checks max_objects s = Some (failed initial_stats, c2, s)"
    unfolding index_site_try_def
    by (simp add: assms(1,3,4,6,7) cnt ne assms(5) Let_def)
  then show ?thesis
    by (simp add: index_site_def failed_def initial_stats_def)
qed

lemma fetch_views_site:
  "client_site_id (snd (fetch_views server wbs acc c)) = client_site_id c
   \<and> token (snd (fetch_views server wbs acc c)) = token c"
proof (induction wbs arbitrary: acc c)
  case Nil
  show ?case by simp
next
  case (Cons w wbs)
  have step: "\<And>wid. client_site_id (snd (list_views_for_workbook server wid c)) = client_site_id c
                    \<and> token (snd (list_views_for_workbook server wid c)) = token c"
    by (simp add: list_views_for_workbook_def headers_def send_def split: sum.splits)
  show ?case
  proof (cases "truthy (get (raw_id w))")
    case False
    then show ?thesis using Cons.IH by simp
  next
    case True
    obtain res c1 where r: "list_views_for_workbook server (the (get (raw_id w))) c = (res, c1)"
      by (cases "list_views_for_workbook server (the (get (raw_id w))) c")
    with step [of "the (get (raw_id w))"]
    have c1: "client_site_id c1 = client_site_id c" "token c1 = token c" by simp_all
    show ?thesis
      using True r c1 Cons.IH by (cases res) simp_all
  qed
qed

lemma fetch_views_none:
  assumes "\<And>h sid wid tok. server h (WorkbookViewsRequest sid wid tok) = Inr (Collection Views [])"
  shows "truthy (token c) \<Longrightarrow> fst (fetch_views server wbs [] c) = []"
proof (induction wbs arbitrary: c)
  case Nil
  show ?case by simp
next
  case (Cons w wbs)
  show ?case
  proof (cases "truthy (get (raw_id w))")
    case False
    then show ?thesis using Cons by simp
  next
    case True
    let ?c1 = "c\<lparr>sent := sent c @ [WorkbookViewsRequest (client_site_id c) (the (get (raw_id w)))
                                      (the (token c))]\<rparr>"
    have "list_views_for_workbook server (the (get (raw_id w))) c = (Inr [], ?c1)"
      using Cons.prems assms
      by (simp add: list_views_for_workbook_def headers_def send_def collection_of_def
            or_empty_def)
    moreover have "truthy (token ?c1)" using Cons.prems by simp
    ultimately show ?thesis using True Cons.IH [of ?c1] by simp
  qed
qed

lemma passing_run_upserts:
  assumes "signin server (TableauClient name secret site) = (Inr True, c1)"
    and "reachable s"
    and "fetch_comprehensive_metadata server (if truthy object_types then object_types else None) c1
           = Some (Inr md, c2)"
    and "prepare_objects_for_indexing (client_site_id c2) md = Inr prepared"
    and "limit_records max_objects prepared \<noteq> []"
    and "overall_quality (fst (run_all_checks (limit_records max_objects prepared)
                                 (QualityChecker (the (client_site_id c1)) site)))"
  shows "\<exists>st. index_site server clock name secret site project_filter object_types
                 enable_quality_checks max_objects s
           = Some (st, snd (signout server c2),
                   snd (upsert_records_batch clock (limit_records max_objects prepared) 50 s))"
proof -
  have ne: "prepared \<noteq> []" using assms(5) limit_records_Nil by metis
  have cnt: "get_record_count (client_site_id c1) None s
               = Inr (length (filter (\<lambda>r. if truthy (client_site_id c1)
                                            then row_site_id r = the (client_site_id c1) else True)
                                (rows s)))"
    using assms(2) by (simp add: get_record_count_def truthy_def)
  have "\<exists>st. index_site_try server clock name secret site project_filter object_types
           enable_quality_checks max_objects s
           = Some (st, c2, snd (upsert_records_batch clock (limit_records max_objects prepared) 50 s))"
    unfolding index_site_try_def
    by (simp add: assms(1,3,4,6) cnt ne assms(5) Let_def split: prod.splits sum.splits)
  then show ?thesis
    by (auto simp: index_site_def)
qed

theorem blocked_run_writes_nothing_witness:
  "(\<exists>c. index_site (example_server [example_rest_workbook, nameless_workbook]) (\<lambda>i. 20)
         ''pat'' ''secret'' ''Main'' None None True None embedded_store
       = Some (initial_stats\<lparr>errors := 1\<rparr>, c, embedded_store))
   \<and> (\<exists>st c. index_site (example_server [example_rest_workbook]) (\<lambda>i. 20)
         ''pat'' ''secret'' ''Main'' None None True None (empty_store :: nat store)
       = Some (st, c, \<lparr> reachable = True,
                        rows = [inserted_row 1 20 (prepare_workbook ''s1'' example_rest_workbook)],
                        next_id = 2 \<rparr>))"
proof -
  let ?wbs = "[example_rest_workbook, nameless_workbook]"
  let ?srv = "example_server ?wbs"
  let ?md = "\<lparr> workbooks = ?wbs, datasources = [], views = [] \<rparr>"
  let ?prepared = "[prepare_workbook ''s1'' example_rest_workbook,
                    prepare_workbook ''s1'' nameless_workbook]"
  define c1 where "c1 = signed_in\<lparr>sent := [SigninRequest ''pat'' ''secret'' ''Main'']\<rparr>"
  have tok: "truthy (token c1)" and sid: "client_site_id c1 = Some ''s1''"
    by (simp_all add: c1_def signed_in_def TableauClient_def truthy_def)
  have h1: "signin ?srv (TableauClient ''pat'' ''secret'' ''Main'') = (Inr True, c1)"
    by (simp add: c1_def signin_def send_def example_server_def TableauClient_def signed_in_def
          truthy_def)
  have h2: "reachable embedded_store" by (simp add: embedded_store_def)
  obtain c1a where lw: "list_workbooks ?srv None c1 = Some (Inr ?wbs, c1a)"
    and c1a: "token c1a = token c1" "client_site_id c1a = client_site_id c1"
    using list_workbooks_paged [of c1 ?srv None ?wbs] tok
    by (simp add: example_server_def)
  obtain c1b where ld: "list_datasources ?srv None c1a = Some (Inr [], c1b)"
    and c1b: "token c1b = token c1" "client_site_id c1b = client_site_id c1"
    using list_datasources_empty [of c1a ?srv None] tok c1a
    by (simp add: example_server_def)
  obtain vws c2 where fv: "fetch_views ?srv ?wbs [] c1b = (vws, c2)"
    by (cases "fetch_views ?srv ?wbs [] c1b")
  have "fst (fetch_views ?srv ?wbs [] c1b) = []"
    using tok c1b by (intro fetch_views_none) (simp_all add: example_server_def)
  then have vws: "vws = []" using fv by simp
  have c2: "client_site_id c2 = Some ''s1''"
    using fetch_views_site [of ?srv ?wbs "[]" c1b] fv c1b sid by simp
  have h3: "fetch_comprehensive_metadata ?srv (if truthy None then None else None) c1
              = Some (Inr ?md, c2)"
    using sid lw ld fv vws
    by (simp add: fetch_comprehensive_metadata_def wants_def truthy_def)
  have h4: "prepare_objects_for_indexing (client_site_id c2) ?md = Inr ?prepared"
    by (simp add: c2 prepare_objects_for_indexing_def truthy_def)
  have h5: "limit_records None ?prepared \<noteq> []" by (simp add: limit_records_def)
  have "blocking_failure ''s1'' (prepare_workbook ''s1'' nameless_workbook)"
    by (simp add: blocking_failure_def prepare_workbook_def prepare_object_def
          nameless_workbook_def get_or_def truthy_def)
  then have h7: "\<not> overall_quality (fst (run_all_checks (limit_records None ?prepared)
                     (QualityChecker (the (client_site_id c1)) ''Main'')))"
    by (simp add: overall_quality_iff limit_records_def QualityChecker_def sid)
  have blocked: "\<exists>c. index_site ?srv (\<lambda>i. 20) ''pat'' ''secret'' ''Main'' None None True None
                       embedded_store
                     = Some (initial_stats\<lparr>errors := 1\<rparr>, c, embedded_store)"
    using blocked_run_writes_nothing [OF h1 h2 h3 h4 h5 _ h7, of True "\<lambda>i. 20" None]
    by simp
  let ?one = "[example_rest_workbook]"
  let ?srv1 = "example_server ?one"
  let ?md1 = "\<lparr> workbooks = ?one, datasources = [], views = [] \<rparr>"
  let ?prepared1 = "[prepare_workbook ''s1'' example_rest_workbook]"
  have g1: "signin ?srv1 (TableauClient ''pat'' ''secret'' ''Main'') = (Inr True, c1)"
    by (simp add: c1_def signin_def send_def example_server_def TableauClient_def signed_in_def
          truthy_def)
  have g2: "reachable (empty_store :: nat store)" by (simp add: empty_store_def)
  obtain d1a where lw1: "list_workbooks ?srv1 None c1 = Some (Inr ?one, d1a)"
    and d1a: "token d1a = token c1" "client_site_id d1a = client_site_id c1"
    using list_workbooks_paged [of c1 ?srv1 None ?one] tok
    by (simp add: example_server_def)
  obtain d1b where ld1: "list_datasources ?srv1 None d1a = Some (Inr [], d1b)"
    and d1b: "token d1b = token c1" "client_site_id d1b = client_site_id c1"
    using list_datasources_empty [of d1a ?srv1 None] tok d1a
    by (simp add: example_server_def)
  obtain vws1 d2 where fv1: "fetch_views ?srv1 ?one [] d1b = (vws1, d2)"
    by (cases "fetch_views ?srv1 ?one [] d1b")
  have "fst (fetch_views ?srv1 ?one [] d1b) = []"
    using tok d1b by (intro fetch_views_none) (simp_all add: example_server_def)
  then have vws1: "vws1 = []" using fv1 by simp
  have d2: "client_site_id d2 = Some ''s1''"
    using fetch_views_site [of ?srv1 ?one "[]" d1b] fv1 d1b sid by simp
  have g3: "fetch_comprehensive_metadata ?srv1 (if truthy None then None else None) c1
              = Some (Inr ?md1, d2)"
    using sid lw1 ld1 fv1 vws1
    by (simp add: fetch_comprehensive_metadata_def wants_def truthy_def)
  have g4: "prepare_objects_for_indexing (client_site_id d2) ?md1 = Inr ?prepared1"
    by (simp add: d2 prepare_objects_for_indexing_def truthy_def)
  have g5: "limit_records None ?prepared1 \<noteq> []" by (simp add: limit_records_def)
  have "\<not> blocking_failure ''s1'' (prepare_workbook ''s1'' example_rest_workbook)"
    by (simp add: blocking_failure_def prepare_workbook_def prepare_object_def
          example_rest_workbook_def get_or_def truthy_def create_text_blob_def)
       code_simp
  then have g6: "overall_quality (fst (run_all_checks (limit_records None ?prepared1)
                     (QualityChecker (the (client_site_id c1)) ''Main'')))"
    by (simp add: overall_quality_iff limit_records_def QualityChecker_def sid)
  have written: "snd (upsert_records_batch (\<lambda>i. 20) (limit_records None ?prepared1) 50
                        (empty_store :: nat store))
                   = \<lparr> reachable = True,
                       rows = [inserted_row 1 20 (prepare_workbook ''s1'' example_rest_workbook)],
                       next_id = 2 \<rparr>"
    by code_simp
  have passing: "\<exists>st c. index_site ?srv1 (\<lambda>i. 20) ''pat'' ''secret'' ''Main'' None None True None
                          (empty_store :: nat store)
       = Some (st, c, \<lparr> reachable = True,
                        rows = [inserted_row 1 20 (prepare_workbook ''s1'' example_rest_workbook)],
                        next_id = 2 \<rparr>)"
    using passing_run_upserts [OF g1 g2 g3 g4 g5 g6, of "\<lambda>i. 20" None True] written
    by auto
  show ?thesis using blocked passing by (rule conjI)
qed

end
